theory Spec2Isabelle
  imports Main "HOL-Library.Sublist"
begin

section \<open>JavaScript values used by the route handlers\<close>

text \<open>
  A value that is a string or \<^verbatim>\<open>undefined\<close> (a query parameter, a request header, an
  environment variable, a configuration entry) is a \<open>string option\<close>, with \<open>None\<close> for
  \<^verbatim>\<open>undefined\<close>. A \<open>char\<close> stands for one UTF-16 code unit, which is what the
  \<^verbatim>\<open>length\<close> and \<^verbatim>\<open>slice\<close> of a JavaScript string count.
\<close>

definition truthy :: "string option \<Rightarrow> bool" where
  "truthy v = (case v of None \<Rightarrow> False | Some s \<Rightarrow> s \<noteq> [])"

text \<open>\<^verbatim>\<open>a || b\<close> on such values.\<close>

definition js_or :: "string option \<Rightarrow> string option \<Rightarrow> string option" where
  "js_or a b = (if truthy a then a else b)"

text \<open>\<^verbatim>\<open>a ?? b\<close> on such values.\<close>

definition js_nullish :: "string option \<Rightarrow> string option \<Rightarrow> string option" where
  "js_nullish a b = (case a of None \<Rightarrow> b | Some _ \<Rightarrow> a)"

text \<open>\<^verbatim>\<open>parts.join(sep)\<close>.\<close>

fun js_join :: "string \<Rightarrow> string list \<Rightarrow> string" where
  "js_join sep [] = []"
| "js_join sep [x] = x"
| "js_join sep (x # y # ys) = x @ sep @ js_join sep (y # ys)"

text \<open>\<^verbatim>\<open>s.toLowerCase()\<close>, on the ASCII letters.\<close>

definition lower_char :: "char \<Rightarrow> char" where
  "lower_char c = (let n = (of_char c :: nat) in if 65 \<le> n \<and> n \<le> 90 then char_of (n + 32) else c)"

definition toLowerCase :: "string \<Rightarrow> string" where
  "toLowerCase s = map lower_char s"

text \<open>
  \<^verbatim>\<open>xs.slice(0, end)\<close> where \<open>end\<close> is a JavaScript number holding an integer, or
  \<^verbatim>\<open>NaN\<close> (\<open>None\<close>): \<^verbatim>\<open>NaN\<close> counts as 0, a negative \<open>end\<close> counts from the end of
  the list.
\<close>

definition slice0 :: "int option \<Rightarrow> 'a list \<Rightarrow> 'a list" where
  "slice0 end xs =
     (let n = int (length xs);
          e = (case end of None \<Rightarrow> 0 | Some k \<Rightarrow> k);
          final = (if e < 0 then max (n + e) 0 else min e n)
      in take (nat final) xs)"

section \<open>Credential resolution\<close>

text \<open>
  What each handler writes to the log about the cookie it resolved: the interpolated
  values of its \<^verbatim>\<open>logger.info\<close> template (source label, length, prefix).
\<close>

record cookie_log =
  log_source :: string
  log_length :: nat
  log_prefix :: string

subsection \<open>investing/latest-news and investing/most-popular-news\<close>

record inv_request =
  query_limit :: "string option"
  query_cookie :: "string option"
  query_puppeteer :: "string option"
  header_cookie :: "string option"

record inv_env =
  Investing_Cookie :: "string option"
  Investing_UsePuppeteer :: "string option"

text \<open>\<^verbatim>\<open>if (v) { cookieParts.push(v); }\<close>\<close>

definition pushIf :: "string option \<Rightarrow> string list \<Rightarrow> string list" where
  "pushIf v parts = (case v of None \<Rightarrow> parts | Some s \<Rightarrow> if s = [] then parts else parts @ [s])"

definition inv_cookieParts :: "inv_request \<Rightarrow> inv_env \<Rightarrow> string list" where
  "inv_cookieParts req env =
     pushIf (Investing_Cookie env) (pushIf (header_cookie req) (pushIf (query_cookie req) []))"

definition inv_cookie :: "inv_request \<Rightarrow> inv_env \<Rightarrow> string" where
  "inv_cookie req env = js_join ''; '' (inv_cookieParts req env)"

definition inv_cookieSource :: "inv_request \<Rightarrow> inv_env \<Rightarrow> string" where
  "inv_cookieSource req env =
     (if truthy (query_cookie req) then ''query+env/header''
      else if truthy (header_cookie req) then ''header+env''
      else if truthy (Investing_Cookie env) then ''env''
      else ''none'')"

definition inv_usePuppeteer :: "inv_request \<Rightarrow> inv_env \<Rightarrow> bool" where
  "inv_usePuppeteer req env =
     (case js_nullish (query_puppeteer req) (js_nullish (Investing_UsePuppeteer env) (Some ''false'')) of
        None \<Rightarrow> False
      | Some s \<Rightarrow> toLowerCase s = ''true'')"

text \<open>\<^verbatim>\<open>cookie ? cookie.slice(0, 32) : 'none'\<close>\<close>

definition cookiePrefix :: "string \<Rightarrow> string" where
  "cookiePrefix cookie = (if cookie = [] then ''none'' else take 32 cookie)"

definition inv_log :: "inv_request \<Rightarrow> inv_env \<Rightarrow> cookie_log \<times> bool" where
  "inv_log req env =
     (let cookie = inv_cookie req env in
      (\<lparr> log_source = inv_cookieSource req env,
         log_length = length cookie,
         log_prefix = cookiePrefix cookie \<rparr>,
       inv_usePuppeteer req env))"

subsection \<open>xiaohongshu/check-cookie\<close>

text \<open>
  \<open>url_vokecookie_b64\<close> is what \<^verbatim>\<open>getCookieFromUrlBase64(ctx.req.url)\<close> returns (the
  Base64-decoded value of the parameter in the raw URL, \<open>None\<close> when the URL has no
  such parameter); the other fields are the values the framework returns for
  \<^verbatim>\<open>ctx.req.query\<close> and \<^verbatim>\<open>ctx.req.header\<close>.
\<close>

record xhs_request =
  url_vokecookie_b64 :: "string option"
  query_vokecookie_b64 :: "string option"
  header_XIAOHONGSHU_COOKIE :: "string option"
  header_XIAOHONGSHU_dash_COOKIE :: "string option"

definition xhs_headerCookie :: "xhs_request \<Rightarrow> string option" where
  "xhs_headerCookie req = js_or (header_XIAOHONGSHU_COOKIE req) (header_XIAOHONGSHU_dash_COOKIE req)"

definition xhs_cookieFromQuery :: "xhs_request \<Rightarrow> string option" where
  "xhs_cookieFromQuery req = js_nullish (url_vokecookie_b64 req) (query_vokecookie_b64 req)"

definition xhs_cookie :: "xhs_request \<Rightarrow> string option \<Rightarrow> string option" where
  "xhs_cookie req config_cookie =
     js_or (js_or (xhs_cookieFromQuery req) (xhs_headerCookie req)) config_cookie"

definition xhs_cookieSource :: "xhs_request \<Rightarrow> string option \<Rightarrow> string" where
  "xhs_cookieSource req config_cookie =
     (if truthy (xhs_cookieFromQuery req) then ''query''
      else if truthy (xhs_headerCookie req) then ''header''
      else if truthy config_cookie then ''config''
      else ''none'')"

text \<open>\<^verbatim>\<open>cookie?.length ?? 0\<close> and the prefix, for a cookie that may be undefined.\<close>

definition opt_length :: "string option \<Rightarrow> nat" where
  "opt_length v = (case v of None \<Rightarrow> 0 | Some s \<Rightarrow> length s)"

definition opt_prefix :: "string option \<Rightarrow> string" where
  "opt_prefix v = (case v of None \<Rightarrow> ''none'' | Some s \<Rightarrow> cookiePrefix s)"

definition xhs_log :: "xhs_request \<Rightarrow> string option \<Rightarrow> cookie_log" where
  "xhs_log req config_cookie =
     (let cookie = xhs_cookie req config_cookie in
      \<lparr> log_source = xhs_cookieSource req config_cookie,
        log_length = opt_length cookie,
        log_prefix = opt_prefix cookie \<rparr>)"

subsection \<open>douyin/user and douyin/user-web\<close>

definition douyin_cookie :: "string option \<Rightarrow> string option \<Rightarrow> string option" where
  "douyin_cookie headerCookie config_cookies = js_or headerCookie config_cookies"

definition douyin_cookieSource :: "string option \<Rightarrow> string option \<Rightarrow> string" where
  "douyin_cookieSource headerCookie config_cookies =
     (if truthy headerCookie then ''header''
      else if truthy config_cookies then ''env''
      else ''none'')"

definition douyin_log :: "string option \<Rightarrow> string option \<Rightarrow> cookie_log" where
  "douyin_log headerCookie config_cookies =
     (let cookie = douyin_cookie headerCookie config_cookies in
      \<lparr> log_source = douyin_cookieSource headerCookie config_cookies,
        log_length = opt_length cookie,
        log_prefix = opt_prefix cookie \<rparr>)"

subsection \<open>twitter/user\<close>

text \<open>
  The values decoded from the query are interpolated whole into the log line, each
  replaced by \<^verbatim>\<open>'none'\<close> when undefined; the line is written only when one of them is
  truthy.
\<close>

record twitter_log =
  tw_username :: string
  tw_password :: string
  tw_authToken :: string

definition or_none :: "string option \<Rightarrow> string" where
  "or_none v = (case v of None \<Rightarrow> ''none'' | Some s \<Rightarrow> s)"

definition twitter_decoded_log :: "string option \<Rightarrow> string option \<Rightarrow> string option \<Rightarrow> twitter_log option" where
  "twitter_decoded_log usernameFromQuery passwordFromQuery authTokenFromQuery =
     (if truthy usernameFromQuery \<or> truthy passwordFromQuery \<or> truthy authTokenFromQuery
      then Some \<lparr> tw_username = or_none usernameFromQuery,
                  tw_password = or_none passwordFromQuery,
                  tw_authToken = or_none authTokenFromQuery \<rparr>
      else None)"

section \<open>Errors and observable effects\<close>

text \<open>
  \<open>InvalidParameterError\<close> and \<open>Error\<close> are the exceptions the handlers construct
  themselves; \<open>Thrown\<close> is an exception raised by a collaborator (the HTTP client, the
  browser driver, the cache, the feed parser), with its message.
\<close>

datatype error = InvalidParameterError string | Error string | Thrown string

datatype tier = Direct | Browser | ExternalRender

text \<open>
  The effects a handler has on the outside, in the order they happen.
  \<open>TierAttempt\<close> marks the call that starts a retrieval tier (\<^verbatim>\<open>got\<close>,
  \<^verbatim>\<open>getPuppeteerPage\<close>, the \<^verbatim>\<open>fetch\<close> of the real-browser service).
  \<open>BrowserOpened\<close> is a browser session handed to the handler (\<^verbatim>\<open>puppeteer()\<close> or
  \<^verbatim>\<open>getPuppeteerPage\<close> returned), \<open>BrowserClosed\<close> the call that releases it
  (\<^verbatim>\<open>browser.close()\<close>, \<^verbatim>\<open>pageContext.destory()\<close>).
\<close>

datatype event =
    ReadHeader string
  | LogInfo cookie_log
  | CacheTryGet string
  | HttpRequest string
  | TierAttempt tier
  | BrowserOpened
  | BrowserClosed

definition throwing :: "string + 'a \<Rightarrow> error + 'a" where
  "throwing r = (case r of Inl m \<Rightarrow> Inl (Thrown m) | Inr v \<Rightarrow> Inr v)"

section \<open>investing/most-popular-news: the tiered fetch of the list page\<close>

text \<open>
  \<^verbatim>\<open>/Just a moment\.\.\.|cf_chl_opt|challenge-platform/i.test(content)\<close>: one of the three
  literals occurs in the content, compared without regard to the case of ASCII letters.
\<close>

definition isChallengePage :: "string \<Rightarrow> bool" where
  "isChallengePage content =
     (let c = toLowerCase content in
      sublist ''just a moment...'' c \<or> sublist ''cf_chl_opt'' c \<or> sublist ''challenge-platform'' c)"

text \<open>
  What the outside answers during one run of \<^verbatim>\<open>fetchListHtml\<close>, each as a function of
  the cookie sent where one is sent:
  \<^item> \<open>direct_response\<close>: \<^verbatim>\<open>got.get(newsUrl)\<close> and the conversion of its data to a string
    throw (\<open>Inl\<close>), or give the body;
  \<^item> \<open>puppeteer_page\<close>: \<^verbatim>\<open>getPuppeteerPage\<close> throws, so no page context reaches the
    handler (outer \<open>Inl\<close>), or gives a page whose \<^verbatim>\<open>content()\<close> throws or returns;
  \<^item> \<open>destory_throws\<close>: the release call of the page context throws;
  \<^item> \<open>puppeteerRealBrowserService\<close>: the configured address of the service;
  \<^item> \<open>real_browser_response\<close>: \<^verbatim>\<open>fetch\<close> or \<^verbatim>\<open>response.json()\<close> throws, or gives the
    \<^verbatim>\<open>data\<close> member of the body (\<open>None\<close> when it is missing).
\<close>

record mp_world =
  direct_response :: "string \<Rightarrow> string + string"
  puppeteer_page :: "string \<Rightarrow> string + (string + string)"
  destory_throws :: bool
  puppeteerRealBrowserService :: "string option"
  real_browser_response :: "string + string list option"

definition fetchWithRealBrowser :: "mp_world \<Rightarrow> event list \<times> string" where
  "fetchWithRealBrowser w =
     (if \<not> truthy (puppeteerRealBrowserService w) then ([], [])
      else ([TierAttempt ExternalRender],
            case real_browser_response w of
              Inl _ \<Rightarrow> []
            | Inr None \<Rightarrow> []
            | Inr (Some []) \<Rightarrow> []
            | Inr (Some (h # _)) \<Rightarrow> h))"

text \<open>The first \<^verbatim>\<open>try\<close> block: the request, then the check of the body.\<close>

definition mp_direct :: "string \<Rightarrow> mp_world \<Rightarrow> error + string" where
  "mp_direct cookie w =
     (case direct_response w cookie of
        Inl m \<Rightarrow> Inl (Thrown m)
      | Inr listHtml \<Rightarrow>
          if listHtml = [] \<or> isChallengePage listHtml then Inl (Error ''Blocked by Cloudflare'')
          else Inr listHtml)"

text \<open>
  The second \<^verbatim>\<open>try\<close>/\<^verbatim>\<open>finally\<close> block. When \<^verbatim>\<open>getPuppeteerPage\<close> throws,
  \<^verbatim>\<open>pageContext\<close> is still undefined and the \<^verbatim>\<open>finally\<close> clause calls nothing.
\<close>

definition mp_browser :: "string \<Rightarrow> mp_world \<Rightarrow> event list \<times> (error + string)" where
  "mp_browser cookie w =
     (case puppeteer_page w cookie of
        Inl m \<Rightarrow> ([TierAttempt Browser], Inl (Thrown m))
      | Inr page \<Rightarrow>
          ([TierAttempt Browser, BrowserOpened, BrowserClosed],
           if destory_throws w then Inl (Thrown ''destory'') else throwing page))"

definition fetchListHtml :: "string \<Rightarrow> bool \<Rightarrow> mp_world \<Rightarrow> event list \<times> (error + string)" where
  "fetchListHtml cookie usePuppeteer w =
     (case mp_direct cookie w of
        Inr listHtml \<Rightarrow> ([TierAttempt Direct], Inr listHtml)
      | Inl e \<Rightarrow>
          if \<not> usePuppeteer then ([TierAttempt Direct], Inl e)
          else (case mp_browser cookie w of
                  (ev, Inl e') \<Rightarrow> (TierAttempt Direct # ev, Inl e')
                | (ev, Inr listHtml) \<Rightarrow>
                    if (listHtml = [] \<or> isChallengePage listHtml) \<and> truthy (puppeteerRealBrowserService w)
                    then (case fetchWithRealBrowser w of
                            (ev', html) \<Rightarrow>
                              (TierAttempt Direct # ev @ ev',
                               Inr (if html \<noteq> [] then html else listHtml)))
                    else (TierAttempt Direct # ev, Inr listHtml)))"

section \<open>The item limit\<close>

text \<open>White space and decimal digits, on the code units below 256.\<close>

definition is_space :: "char \<Rightarrow> bool" where
  "is_space c = (let n = (of_char c :: nat) in (9 \<le> n \<and> n \<le> 13) \<or> n = 32 \<or> n = 160)"

definition is_digit :: "char \<Rightarrow> bool" where
  "is_digit c = (let n = (of_char c :: nat) in 48 \<le> n \<and> n \<le> 57)"

text \<open>
  \<^verbatim>\<open>Number.parseInt(s, 10)\<close>: leading white space is skipped, one sign is read, then the
  longest run of decimal digits; \<^verbatim>\<open>NaN\<close> (\<open>None\<close>) when there is no digit. The result is
  kept as an unbounded integer: it is only used as the end of a \<^verbatim>\<open>slice\<close>, which clamps
  it to the length of the list.
\<close>

definition parseInt :: "string \<Rightarrow> int option" where
  "parseInt s =
     (let t = dropWhile is_space s;
          neg = (case t of [] \<Rightarrow> False | c # _ \<Rightarrow> c = CHR ''-'');
          u = (case t of [] \<Rightarrow> [] | c # r \<Rightarrow> if c = CHR ''+'' \<or> c = CHR ''-'' then r else t);
          ds = takeWhile is_digit u
      in if ds = [] then None
         else (let m = foldl (\<lambda>a d. 10 * a + int (of_char d - 48)) 0 ds
               in Some (if neg then - m else m)))"

text \<open>\<^verbatim>\<open>ctx.req.query('limit') ? Number.parseInt(ctx.req.query('limit'), 10) : 20\<close>\<close>

definition inv_limit :: "inv_request \<Rightarrow> int option" where
  "inv_limit req =
     (case query_limit req of
        None \<Rightarrow> Some 20
      | Some s \<Rightarrow> if s = [] then Some 20 else parseInt s)"

text \<open>
  The object a handler returns: its link and its items (the title, a constant or the
  title of the upstream feed, is left out).
\<close>

record 'i feed =
  feed_link :: string
  feed_item :: "'i list"

section \<open>investing/most-popular-news: the handler\<close>

text \<open>
  \<open>parseList\<close> stands for lines 163 to 191: loading the markup, evaluating the list
  selector, building an entry from each match and dropping those without link or title.
  It is a parameter because the selector engine is a library; \<open>Inl\<close> is an exception
  raised there.
\<close>

definition mp_handler ::
  "(string \<Rightarrow> string + 'i list) \<Rightarrow> inv_request \<Rightarrow> inv_env \<Rightarrow> mp_world \<Rightarrow> event list \<times> (error + 'i feed)" where
  "mp_handler parseList req env w =
     (let limit = inv_limit req;
          cookie = inv_cookie req env;
          usePuppeteer = inv_usePuppeteer req env;
          logged = LogInfo (fst (inv_log req env))
      in case fetchListHtml cookie usePuppeteer w of
           (ev, Inl e) \<Rightarrow> (logged # ev, Inl e)
         | (ev, Inr listHtml) \<Rightarrow>
             (case parseList listHtml of
                Inl m \<Rightarrow> (logged # ev, Inl (Thrown m))
              | Inr listItems \<Rightarrow>
                  if listItems = [] \<and> cookie = [] \<and> \<not> usePuppeteer
                  then (logged # ev,
                        Inl (Error ''Failed to parse list page. Try passing a valid cookie or enabling puppeteer.''))
                  else (logged # ev,
                        Inr \<lparr> feed_link = ''https://cn.investing.com/news/most-popular-news'',
                              feed_item = slice0 limit listItems \<rparr>)))"

section \<open>investing/latest-news: extraction and the fetch of one article\<close>

text \<open>
  A loaded document, after \<^verbatim>\<open>$('script, style, noscript, iframe').remove()\<close>, as the
  answers of the selector engine to the four queries of the handler: for each of the
  three container selectors the inner HTML of every matched element, in document
  order, and the \<^verbatim>\<open>content\<close> attribute of the first \<^verbatim>\<open>og:description\<close> meta element
  (\<open>None\<close> when there is none).
\<close>

record document =
  sel_id_articlePage :: "string list"
  sel_class_articlePage :: "string list"
  sel_article :: "string list"
  meta_og_description :: "string option"

text \<open>\<^verbatim>\<open>selection.html()\<close>: the inner HTML of the first element, \<^verbatim>\<open>null\<close> on an empty selection.\<close>

definition html_of :: "string list \<Rightarrow> string option" where
  "html_of selection = (case selection of [] \<Rightarrow> None | h # _ \<Rightarrow> Some h)"

text \<open>Lines 118 to 121 (and again 155 to 158): the value of \<^verbatim>\<open>html\<close>.\<close>

definition extract_html :: "document \<Rightarrow> string option" where
  "extract_html d =
     (let content = (if length (sel_id_articlePage d) \<noteq> 0 then sel_id_articlePage d else sel_class_articlePage d);
          article = (if length content \<noteq> 0 then content else sel_article d)
      in js_or (html_of article) (meta_og_description d))"

record item =
  title :: "string option"
  link :: string
  description :: "string option"

text \<open>\<^verbatim>\<open>if (html) { item.description = html; }\<close>\<close>

definition set_description :: "string option \<Rightarrow> item \<Rightarrow> item" where
  "set_description html it = (if truthy html then it\<lparr>description := html\<rparr> else it)"

text \<open>
  What the outside answers while the handler runs:
  \<^item> \<open>feed_response\<close>: the request of the RSS feed with the cookie throws or gives the
    body as text;
  \<^item> \<open>parseString\<close>: the feed parser throws, or gives \<^verbatim>\<open>feed.items\<close> (\<open>None\<close> when the
    member is missing);
  \<^item> \<open>got_article\<close>: for a link and the cookie, \<^verbatim>\<open>got\<close> or \<^verbatim>\<open>load\<close> throws, or the
    document is loaded;
  \<^item> \<open>puppeteer_article\<close>: for a link, \<^verbatim>\<open>getPuppeteerPage\<close> throws, so no page context
    reaches the handler, or gives a page whose \<^verbatim>\<open>content()\<close> or \<^verbatim>\<open>load\<close> throws or gives
    the document (a time-out of \<^verbatim>\<open>waitForSelector\<close> is caught and changes nothing);
  \<^item> \<open>article_destory_throws\<close>: for a link, the release call of the page context throws.
\<close>

record 'e ln_world =
  feed_response :: "string \<Rightarrow> string + string"
  parseString :: "string \<Rightarrow> string + 'e list option"
  got_article :: "string \<Rightarrow> string \<Rightarrow> string + document"
  puppeteer_article :: "string \<Rightarrow> string + (string + document)"
  article_destory_throws :: "string \<Rightarrow> bool"

text \<open>\<^verbatim>\<open>tryGot\<close>: the attempted tiers, the returned flag and the item as it is afterwards.\<close>

definition tryGot :: "string \<Rightarrow> 'e ln_world \<Rightarrow> item \<Rightarrow> event list \<times> bool \<times> item" where
  "tryGot cookie w it =
     (if cookie = [] then ([], False, it)
      else (case got_article w (link it) cookie of
              Inl _ \<Rightarrow> ([TierAttempt Direct], False, it)
            | Inr d \<Rightarrow>
                (let html = extract_html d
                 in ([TierAttempt Direct], truthy html, set_description html it))))"

text \<open>
  The function passed to \<^verbatim>\<open>cache.tryGet\<close> for one item. The \<^verbatim>\<open>catch\<close> clause swallows
  what the browser part throws; an exception of the release call in the \<^verbatim>\<open>finally\<close>
  clause is the only one that leaves the function.
\<close>

definition ln_producer :: "string \<Rightarrow> bool \<Rightarrow> 'e ln_world \<Rightarrow> item \<Rightarrow> event list \<times> (error + item)" where
  "ln_producer cookie usePuppeteer w it =
     (case tryGot cookie w it of
        (ev, gotOk, it1) \<Rightarrow>
          if gotOk \<or> \<not> usePuppeteer then (ev, Inr it1)
          else (case puppeteer_article w (link it1) of
                  Inl _ \<Rightarrow> (ev @ [TierAttempt Browser], Inr it1)
                | Inr page \<Rightarrow>
                    (ev @ [TierAttempt Browser, BrowserOpened, BrowserClosed],
                     if article_destory_throws w (link it1) then Inl (Thrown ''destory'')
                     else (case page of
                             Inl _ \<Rightarrow> Inr it1
                           | Inr d \<Rightarrow> Inr (set_description (extract_html d) it1)))))"

section \<open>The cache as the handlers use it\<close>

text \<open>
  Modelled from the spec: the cache module behind \<^verbatim>\<open>cache.tryGet\<close> is not among the
  files of the routes. Section 4.2, for one caller at a time: a ready entry is returned
  without invoking the producer; without an entry the producer is invoked, its value is
  stored under the key and returned, and its failure is the failure of the call and
  stores nothing. The cache holds the entries that have not expired. The events of the
  producer happen only when it is invoked.
\<close>

type_synonym 'v cache = "string \<Rightarrow> 'v option"

definition tryGet :: "string \<Rightarrow> event list \<times> (error + 'v) \<Rightarrow> 'v cache \<Rightarrow> (event list \<times> (error + 'v)) \<times> 'v cache" where
  "tryGet key producer c =
     (case c key of
        Some v \<Rightarrow> (([CacheTryGet key], Inr v), c)
      | None \<Rightarrow>
          (case producer of
             (ev, Inl e) \<Rightarrow> ((CacheTryGet key # ev, Inl e), c)
           | (ev, Inr v) \<Rightarrow> ((CacheTryGet key # ev, Inr v), c(key \<mapsto> v))))"

section \<open>investing/latest-news: the batch of articles and the handler\<close>

text \<open>
  A worker is called with an item in the state the earlier calls left (the cache, the
  log) and gives a value or an exception and the next state.

  The \<^verbatim>\<open>for\<close> loop awaits each call before it starts the next one and pushes the value
  to \<^verbatim>\<open>out\<close>; an exception leaves the loop.
\<close>

fun runSerial :: "('s \<Rightarrow> 'a \<Rightarrow> ('e + 'b) \<times> 's) \<Rightarrow> 'a list \<Rightarrow> 'b list \<Rightarrow> 's \<Rightarrow> ('e + 'b list) \<times> 's" where
  "runSerial worker [] out s = (Inr out, s)"
| "runSerial worker (x # xs) out s =
     (case worker s x of
        (Inl e, s') \<Rightarrow> (Inl e, s')
      | (Inr y, s') \<Rightarrow> runSerial worker xs (out @ [y]) s')"

text \<open>
  \<^verbatim>\<open>Promise.all(items.map(fetchItem))\<close>. The \<^verbatim>\<open>map\<close> calls the worker on every item, in
  the order of the input and each call in the state the earlier calls left, before any
  of the promises settles: the cache is asked and the request is sent with the call. A
  promise is kept as the outcome it will settle with, which the answers of the outside
  fix. In the trace the events of one call stay together, in the order of the calls.
\<close>

fun dispatchAll :: "('s \<Rightarrow> 'a \<Rightarrow> ('e + 'b) \<times> 's) \<Rightarrow> 'a list \<Rightarrow> 's \<Rightarrow> ('e + 'b) list \<times> 's" where
  "dispatchAll worker [] s = ([], s)"
| "dispatchAll worker (x # xs) s =
     (case worker s x of
        (r, s') \<Rightarrow> (case dispatchAll worker xs s' of (rs, s'') \<Rightarrow> (r # rs, s'')))"

text \<open>
  Promise \<open>i\<close> belongs to item \<open>i\<close>, and its value goes to slot \<open>i\<close> of the result
  whenever it arrives. \<open>sched\<close> is the order in which the promises settle, chosen by the
  runtime. The first rejection to arrive rejects the whole; the result is there once
  every slot is filled, and is still pending (\<open>None\<close>) when the schedule ends before.
\<close>

fun settleAll :: "('e + 'b) list \<Rightarrow> nat list \<Rightarrow> 'b option list \<Rightarrow> ('e + 'b list) option" where
  "settleAll promises [] slots =
     (case those slots of None \<Rightarrow> None | Some out \<Rightarrow> Some (Inr out))"
| "settleAll promises (i # sched) slots =
     (if i < length promises \<and> i < length slots \<and> slots ! i = None
      then (case promises ! i of
              Inl e \<Rightarrow> Some (Inl e)
            | Inr y \<Rightarrow> settleAll promises sched (slots[i := Some y]))
      else settleAll promises sched slots)"

definition promiseAll ::
  "('s \<Rightarrow> 'a \<Rightarrow> ('e + 'b) \<times> 's) \<Rightarrow> nat list \<Rightarrow> 'a list \<Rightarrow> 's \<Rightarrow> ('e + 'b list) option \<times> 's" where
  "promiseAll worker sched xs s =
     (case dispatchAll worker xs s of
        (promises, s') \<Rightarrow> (settleAll promises sched (replicate (length xs) None), s'))"

text \<open>Lines 171 to 181.\<close>

definition runBatch ::
  "bool \<Rightarrow> ('s \<Rightarrow> 'a \<Rightarrow> ('e + 'b) \<times> 's) \<Rightarrow> nat list \<Rightarrow> 'a list \<Rightarrow> 's \<Rightarrow> ('e + 'b list) option \<times> 's" where
  "runBatch usePuppeteer worker sched xs s =
     (if usePuppeteer
      then (case runSerial worker xs [] s of (r, s') \<Rightarrow> (Some r, s'))
      else promiseAll worker sched xs s)"

text \<open>\<^verbatim>\<open>fetchItem\<close>: the producer behind the cache, keyed by the link. The state is the log of
  events so far and the cache.\<close>

definition fetchItem ::
  "string \<Rightarrow> bool \<Rightarrow> 'e ln_world \<Rightarrow> event list \<times> item cache \<Rightarrow> item \<Rightarrow> (error + item) \<times> (event list \<times> item cache)" where
  "fetchItem cookie usePuppeteer w s it =
     (case s of
        (evs, c) \<Rightarrow>
          (case tryGet (link it) (ln_producer cookie usePuppeteer w it) c of
             ((ev, r), c') \<Rightarrow> (r, (evs @ ev, c'))))"

definition trimStart :: "string \<Rightarrow> string" where
  "trimStart s = dropWhile is_space s"

text \<open>
  The handler. \<open>mkItem\<close> stands for the function mapped over the entries at lines 87 to
  95 (title, absolute link, author, date); \<open>sched\<close> is the order in which the promises
  of the concurrent branch settle.
\<close>

definition ln_handler ::
  "('e \<Rightarrow> item) \<Rightarrow> nat list \<Rightarrow> inv_request \<Rightarrow> inv_env \<Rightarrow> 'e ln_world \<Rightarrow> event list \<times> item cache
     \<Rightarrow> (error + item feed) option \<times> (event list \<times> item cache)" where
  "ln_handler mkItem sched req env w s =
     (let limit = inv_limit req;
          cookie = inv_cookie req env;
          usePuppeteer = inv_usePuppeteer req env;
          s0 = (fst s @ [LogInfo (fst (inv_log req env))], snd s)
      in case feed_response w cookie of
           Inl m \<Rightarrow> (Some (Inl (Thrown m)), s0)
         | Inr body \<Rightarrow>
             (let feedContent = trimStart body
              in if \<not> prefix ''<'' feedContent
                 then (Some (Inl (Error ''RSS feed is not valid XML, maybe blocked by Cloudflare. Try passing a valid cookie.'')), s0)
                 else (case parseString w feedContent of
                         Inl m \<Rightarrow> (Some (Inl (Thrown m)), s0)
                       | Inr feedItems \<Rightarrow>
                           (let items = map mkItem (slice0 limit (case feedItems of None \<Rightarrow> [] | Some xs \<Rightarrow> xs))
                            in case runBatch usePuppeteer (fetchItem cookie usePuppeteer w) sched items s0 of
                                 (None, s') \<Rightarrow> (None, s')
                               | (Some (Inl e), s') \<Rightarrow> (Some (Inl e), s')
                               | (Some (Inr out), s') \<Rightarrow>
                                   (Some (Inr \<lparr> feed_link = ''https://cn.investing.com/news/latest-news'',
                                                feed_item = out \<rparr>), s')))))"

section \<open>douyin/user-web and douyin/user\<close>

text \<open>The post data of the web API: its \<^verbatim>\<open>aweme_list\<close> member, which may be missing.\<close>

record 'p post_data =
  aweme_list :: "'p list option"

text \<open>\<^verbatim>\<open>data?.aweme_list?.length\<close> is truthy.\<close>

definition has_posts :: "'p post_data option \<Rightarrow> bool" where
  "has_posts data =
     (case data of
        None \<Rightarrow> False
      | Some d \<Rightarrow> (case aweme_list d of None \<Rightarrow> False | Some l \<Rightarrow> l \<noteq> []))"

text \<open>
  What the request carries and what the outside answers during one run:
  \<^item> \<open>header_DOUYIN_COOKIES\<close>, \<open>config_douyin_cookies\<close>: the two sources of the cookie;
  \<^item> \<open>web_api\<close>: the request of the web API with the cookie throws, or gives
    \<^verbatim>\<open>response.data\<close> (\<open>None\<close> when undefined);
  \<^item> \<open>launch_throws\<close> to \<open>close_throws\<close>: the awaited calls of the browser part that
    are not inside a \<^verbatim>\<open>try\<close> block throw (\<^verbatim>\<open>puppeteer()\<close>, \<^verbatim>\<open>browser.newPage()\<close>,
    \<^verbatim>\<open>page.setRequestInterception\<close>, \<^verbatim>\<open>page.goto\<close>, \<^verbatim>\<open>browser.close()\<close>);
  \<^item> \<open>intercepted_postData\<close>: \<^verbatim>\<open>postData\<close> as the response listener has left it when
    the browser part is over;
  \<^item> \<open>main_html\<close>: the text of the response of \<^verbatim>\<open>page.goto\<close> (\<open>None\<close> when there is
    no response or reading it throws, which is caught);
  \<^item> \<open>match_render_data\<close>: the first group of the \<^verbatim>\<open>RENDER_DATA\<close> pattern in a text;
  \<^item> \<open>dom_render_data\<close>: the text of the \<^verbatim>\<open>#RENDER_DATA\<close> element read in the page
    (\<open>None\<close> when the wait or the read throws, which is caught, or gives null);
  \<^item> \<open>decode_render_data\<close>: decoding and parsing the render data and searching it with
    \<^verbatim>\<open>extractPostDataFromRenderData\<close> (\<open>None\<close> when that throws, which is caught, or
    finds nothing).
  Exceptions of \<^verbatim>\<open>setCookies\<close> and \<^verbatim>\<open>page.waitForResponse\<close> are caught and change
  nothing.
\<close>

record 'p dy_world =
  header_DOUYIN_COOKIES :: "string option"
  config_douyin_cookies :: "string option"
  web_api :: "string option \<Rightarrow> string + 'p post_data option"
  launch_throws :: bool
  newPage_throws :: bool
  setRequestInterception_throws :: bool
  goto_throws :: bool
  close_throws :: bool
  intercepted_postData :: "'p post_data option"
  main_html :: "string option"
  match_render_data :: "string \<Rightarrow> string option"
  dom_render_data :: "string option"
  decode_render_data :: "string \<Rightarrow> 'p post_data option"

definition api_url :: string where
  "api_url = ''https://www.douyin.com/aweme/v1/web/aweme/post/''"

definition page_url :: "string \<Rightarrow> string" where
  "page_url uid = ''https://www.douyin.com/user/'' @ uid"

definition empty_post_data :: error where
  "empty_post_data = Error ''Empty post data. The request may be filtered by WAF.''"

definition invalid_uid :: error where
  "invalid_uid = InvalidParameterError ''Invalid UID. UID should start with <b>MS4wLjABAAAA</b>.''"

text \<open>douyin/user-web: the function passed to \<^verbatim>\<open>cache.tryGet\<close>.\<close>

definition user_web_producer :: "string option \<Rightarrow> 'p dy_world \<Rightarrow> event list \<times> (error + 'p post_data)" where
  "user_web_producer cookie w =
     (case web_api w cookie of
        Inl m \<Rightarrow> ([HttpRequest api_url], Inl (Thrown m))
      | Inr data \<Rightarrow>
          (case data of
             None \<Rightarrow> ([HttpRequest api_url], Inl empty_post_data)
           | Some d \<Rightarrow>
               if has_posts data then ([HttpRequest api_url], Inr d)
               else ([HttpRequest api_url], Inl empty_post_data)))"

text \<open>
  douyin/user, lines 61 to 119: the browser part of the function passed to
  \<^verbatim>\<open>cache.tryGet\<close>. It gives \<^verbatim>\<open>postData\<close> and \<^verbatim>\<open>renderDataText\<close> as they are after
  \<^verbatim>\<open>browser.close()\<close>.
\<close>

definition douyin_browser :: "string \<Rightarrow> 'p dy_world \<Rightarrow> event list \<times> (error + 'p post_data option \<times> string option)" where
  "douyin_browser uid w =
     (if launch_throws w then ([], Inl (Thrown ''puppeteer''))
      else if newPage_throws w then ([BrowserOpened], Inl (Thrown ''newPage''))
      else if setRequestInterception_throws w then ([BrowserOpened], Inl (Thrown ''setRequestInterception''))
      else if goto_throws w then ([BrowserOpened, HttpRequest (page_url uid)], Inl (Thrown ''goto''))
      else (let htmlFromResponse = main_html w;
                renderDataText = (case htmlFromResponse of
                                    None \<Rightarrow> None
                                  | Some h \<Rightarrow> if h = [] then None else match_render_data w h);
                renderDataText' = (if truthy renderDataText then renderDataText else dom_render_data w)
            in if close_throws w
               then ([BrowserOpened, HttpRequest (page_url uid), BrowserClosed], Inl (Thrown ''close''))
               else ([BrowserOpened, HttpRequest (page_url uid), BrowserClosed],
                     Inr (intercepted_postData w, renderDataText'))))"

text \<open>Lines 121 to 167: the two fall-backs and the final check.\<close>

definition user_producer :: "string option \<Rightarrow> string \<Rightarrow> 'p dy_world \<Rightarrow> event list \<times> (error + 'p post_data)" where
  "user_producer cookie uid w =
     (case douyin_browser uid w of
        (ev, Inl e) \<Rightarrow> (ev, Inl e)
      | (ev, Inr (postData, renderDataText)) \<Rightarrow>
          (let postData1 =
                 (case postData of
                    Some d \<Rightarrow> Some d
                  | None \<Rightarrow>
                      (case renderDataText of
                         None \<Rightarrow> None
                       | Some t \<Rightarrow>
                           if t = [] then None
                           else (let renderPostData = decode_render_data w t
                                 in if has_posts renderPostData then renderPostData else None)))
           in case postData1 of
                Some d \<Rightarrow> (ev, Inr d)
              | None \<Rightarrow>
                  (case web_api w cookie of
                     Inl _ \<Rightarrow> (ev @ [HttpRequest api_url], Inl empty_post_data)
                   | Inr data \<Rightarrow>
                       (case data of
                          None \<Rightarrow> (ev @ [HttpRequest api_url], Inl empty_post_data)
                        | Some d \<Rightarrow>
                            if has_posts data then (ev @ [HttpRequest api_url], Inr d)
                            else (ev @ [HttpRequest api_url], Inl empty_post_data)))))"

text \<open>
  The two handlers. \<open>render\<close> stands for the construction of the feed from the post
  data (author, avatar, one entry per post), which uses templates and helpers of other
  files; \<open>Inl\<close> is an exception raised there.
\<close>

definition user_web_handler ::
  "('p post_data \<Rightarrow> string + 'f) \<Rightarrow> string \<Rightarrow> 'p dy_world \<Rightarrow> 'p post_data cache
     \<Rightarrow> (event list \<times> (error + 'f)) \<times> 'p post_data cache" where
  "user_web_handler render uid w c =
     (if \<not> prefix ''MS4wLjABAAAA'' uid then (([], Inl invalid_uid), c)
      else (let headerCookie = header_DOUYIN_COOKIES w;
                cookie = douyin_cookie headerCookie (config_douyin_cookies w);
                pre = [ReadHeader ''DOUYIN-COOKIES'', LogInfo (douyin_log headerCookie (config_douyin_cookies w))]
            in case tryGet (''douyin:user-web:'' @ uid) (user_web_producer cookie w) c of
                 ((ev, Inl e), c') \<Rightarrow> ((pre @ ev, Inl e), c')
               | ((ev, Inr pageData), c') \<Rightarrow> ((pre @ ev, throwing (render pageData)), c')))"

definition user_handler ::
  "('p post_data \<Rightarrow> string + 'f) \<Rightarrow> string \<Rightarrow> 'p dy_world \<Rightarrow> 'p post_data cache
     \<Rightarrow> (event list \<times> (error + 'f)) \<times> 'p post_data cache" where
  "user_handler render uid w c =
     (if \<not> prefix ''MS4wLjABAAAA'' uid then (([], Inl invalid_uid), c)
      else (let headerCookie = header_DOUYIN_COOKIES w;
                cookie = douyin_cookie headerCookie (config_douyin_cookies w);
                pre = [ReadHeader ''DOUYIN-COOKIES'', LogInfo (douyin_log headerCookie (config_douyin_cookies w))]
            in case tryGet (''douyin:user:'' @ uid) (user_producer cookie uid w) c of
                 ((ev, Inl e), c') \<Rightarrow> ((pre @ ev, Inl e), c')
               | ((ev, Inr pageData), c') \<Rightarrow>
                   if \<not> has_posts (Some pageData) then ((pre @ ev, Inl empty_post_data), c')
                   else ((pre @ ev, throwing (render pageData)), c')))"

text \<open>
  The sessions still open after a run: every \<open>BrowserOpened\<close> counts one up, every
  \<open>BrowserClosed\<close> one down.
\<close>

fun open_after :: "nat \<Rightarrow> event list \<Rightarrow> nat" where
  "open_after n [] = n"
| "open_after n (BrowserOpened # evs) = open_after (Suc n) evs"
| "open_after n (BrowserClosed # evs) = open_after (n - 1) evs"
| "open_after n (_ # evs) = open_after n evs"

definition open_sessions :: "event list \<Rightarrow> nat" where
  "open_sessions evs = open_after 0 evs"

section \<open>The cache under concurrent callers\<close>

text \<open>
  Modelled from the spec: the cache module behind \<^verbatim>\<open>cache.tryGet\<close> is not among the
  files of the routes, so the cache of section 4.2 is written down from its description.
  Tasks are cooperative: a run is a sequence of steps, each a call of a caller for a key
  or the completion of the producer in flight for a key.
  \<^item> A call that finds a ready entry that has not expired returns its value at once.
  \<^item> A call that finds a pending entry joins its waiters.
  \<^item> A call that finds no entry, or an expired one, creates a pending entry with the
    caller as first waiter and invokes the producer.
  \<^item> A completion with a value makes the entry ready until \<open>now + ttl\<close>; a completion
    with an error evicts the entry; both hand the outcome to every waiter.
\<close>

datatype 'v cache_entry = Pending "nat list" | Ready 'v nat

record 'v dedup =
  entries :: "string \<Rightarrow> 'v cache_entry option"
  invoked :: "string list"
  returned :: "(nat \<times> string \<times> (error + 'v)) list"

datatype 'v cache_step = Call nat string nat | Resolve string "error + 'v" nat nat

fun getOrCompute_step :: "'v dedup \<Rightarrow> 'v cache_step \<Rightarrow> 'v dedup" where
  "getOrCompute_step s (Call caller key now) =
     (case entries s key of
        Some (Ready v expiresAt) \<Rightarrow>
          if now < expiresAt then s\<lparr>returned := returned s @ [(caller, key, Inr v)]\<rparr>
          else s\<lparr>entries := (entries s)(key \<mapsto> Pending [caller]), invoked := invoked s @ [key]\<rparr>
      | Some (Pending waiters) \<Rightarrow> s\<lparr>entries := (entries s)(key \<mapsto> Pending (waiters @ [caller]))\<rparr>
      | None \<Rightarrow> s\<lparr>entries := (entries s)(key \<mapsto> Pending [caller]), invoked := invoked s @ [key]\<rparr>)"
| "getOrCompute_step s (Resolve key outcome now ttl) =
     (case entries s key of
        Some (Pending waiters) \<Rightarrow>
          s\<lparr>entries := (case outcome of
                          Inl _ \<Rightarrow> (entries s)(key := None)
                        | Inr v \<Rightarrow> (entries s)(key \<mapsto> Ready v (now + ttl))),
            returned := returned s @ map (\<lambda>caller. (caller, key, outcome)) waiters\<rparr>
      | _ \<Rightarrow> s)"

definition getOrCompute_run :: "'v dedup \<Rightarrow> 'v cache_step list \<Rightarrow> 'v dedup" where
  "getOrCompute_run s steps = foldl getOrCompute_step s steps"

text \<open>The callers of a key among the steps, and the steps that complete its producer.\<close>

fun callers_of :: "string \<Rightarrow> 'v cache_step list \<Rightarrow> nat list" where
  "callers_of key [] = []"
| "callers_of key (Call caller k now # steps) =
     (if k = key then caller # callers_of key steps else callers_of key steps)"
| "callers_of key (Resolve k outcome now ttl # steps) = callers_of key steps"

fun resolves :: "string \<Rightarrow> 'v cache_step \<Rightarrow> bool" where
  "resolves key (Call caller k now) = False"
| "resolves key (Resolve k outcome now ttl) = (k = key)"

section \<open>Reading a run\<close>

text \<open>The tiers attempted during a run, in the order of the attempts.\<close>

fun tier_of :: "event \<Rightarrow> tier option" where
  "tier_of (TierAttempt t) = Some t"
| "tier_of _ = None"

definition attempted :: "event list \<Rightarrow> tier list" where
  "attempted evs = List.map_filter tier_of evs"

text \<open>The keys of the calls of \<^verbatim>\<open>cache.tryGet\<close> during a run, in the order of the calls.\<close>

fun cache_keys :: "event list \<Rightarrow> string list" where
  "cache_keys [] = []"
| "cache_keys (CacheTryGet key # evs) = key # cache_keys evs"
| "cache_keys (_ # evs) = cache_keys evs"

section \<open>Concrete requests and answers\<close>

text \<open>Inputs at which the properties below are evaluated.\<close>

definition req_abc :: inv_request where
  "req_abc = \<lparr> query_limit = None, query_cookie = Some ''a'', query_puppeteer = None,
               header_cookie = Some ''b'' \<rparr>"

definition req_header_only :: inv_request where
  "req_header_only = \<lparr> query_limit = None, query_cookie = None, query_puppeteer = None,
                       header_cookie = Some ''b'' \<rparr>"

definition env_c :: inv_env where
  "env_c = \<lparr> Investing_Cookie = Some ''c'', Investing_UsePuppeteer = None \<rparr>"

definition env_none :: inv_env where
  "env_none = \<lparr> Investing_Cookie = None, Investing_UsePuppeteer = None \<rparr>"

definition xhs_query_and_header :: xhs_request where
  "xhs_query_and_header =
     \<lparr> url_vokecookie_b64 = Some ''a'', query_vokecookie_b64 = None,
       header_XIAOHONGSHU_COOKIE = Some ''b'', header_XIAOHONGSHU_dash_COOKIE = None \<rparr>"

definition xhs_header_only :: xhs_request where
  "xhs_header_only =
     \<lparr> url_vokecookie_b64 = None, query_vokecookie_b64 = None,
       header_XIAOHONGSHU_COOKIE = Some ''b'', header_XIAOHONGSHU_dash_COOKIE = None \<rparr>"

definition long_cookie :: string where
  "long_cookie = ''__cf_bm=0123456789abcdefghijklmnopqrstuvwxyz''"

definition req_long :: inv_request where
  "req_long = \<lparr> query_limit = None, query_cookie = Some long_cookie, query_puppeteer = None,
                header_cookie = None \<rparr>"

definition xhs_long :: xhs_request where
  "xhs_long =
     \<lparr> url_vokecookie_b64 = None, query_vokecookie_b64 = None,
       header_XIAOHONGSHU_COOKIE = Some long_cookie, header_XIAOHONGSHU_dash_COOKIE = None \<rparr>"

definition doc_empty_container :: document where
  "doc_empty_container =
     \<lparr> sel_id_articlePage = [[]], sel_class_articlePage = [''<p>body</p>''],
       sel_article = [], meta_og_description = Some ''summary'' \<rparr>"

definition doc_both :: document where
  "doc_both =
     \<lparr> sel_id_articlePage = [''<p>one</p>''], sel_class_articlePage = [''<p>two</p>''],
       sel_article = [''<p>three</p>''], meta_og_description = Some ''summary'' \<rparr>"

definition doc_class :: document where
  "doc_class =
     \<lparr> sel_id_articlePage = [], sel_class_articlePage = [''<p>two</p>''],
       sel_article = [''<p>three</p>''], meta_og_description = Some ''summary'' \<rparr>"

definition doc_article :: document where
  "doc_article =
     \<lparr> sel_id_articlePage = [], sel_class_articlePage = [],
       sel_article = [''<p>three</p>''], meta_og_description = Some ''summary'' \<rparr>"

definition count_posts :: "nat post_data \<Rightarrow> string + nat" where
  "count_posts d = (case aweme_list d of None \<Rightarrow> Inl ''TypeError'' | Some l \<Rightarrow> Inr (length l))"

definition no_answer :: "string option \<Rightarrow> string + nat post_data option" where
  "no_answer cookie = Inr None"

definition no_match :: "string \<Rightarrow> string option" where
  "no_match text = None"

definition no_render_data :: "string \<Rightarrow> nat post_data option" where
  "no_render_data text = None"

definition dy_goto_timeout :: "nat dy_world" where
  "dy_goto_timeout =
     \<lparr> header_DOUYIN_COOKIES = None, config_douyin_cookies = None, web_api = no_answer,
       launch_throws = False, newPage_throws = False, setRequestInterception_throws = False,
       goto_throws = True, close_throws = False, intercepted_postData = None,
       main_html = None, match_render_data = no_match, dom_render_data = None,
       decode_render_data = no_render_data \<rparr>"

definition empty_cache :: "nat post_data cache" where
  "empty_cache key = None"

definition challenge_page :: string where
  "challenge_page = ''<title>Just a moment...</title>''"

definition blocked_direct :: "string \<Rightarrow> string + string" where
  "blocked_direct cookie = Inr challenge_page"

definition blocked_browser :: "string \<Rightarrow> string + (string + string)" where
  "blocked_browser cookie = Inr (Inr challenge_page)"

definition w_blocked :: mp_world where
  "w_blocked =
     \<lparr> direct_response = blocked_direct, puppeteer_page = blocked_browser, destory_throws = False,
       puppeteerRealBrowserService = Some ''http://127.0.0.1:3000'',
       real_browser_response = Inr (Some []) \<rparr>"

definition req_puppeteer :: inv_request where
  "req_puppeteer = \<lparr> query_limit = None, query_cookie = None, query_puppeteer = Some ''true'',
                     header_cookie = None \<rparr>"

definition no_items :: "string \<Rightarrow> string + string list" where
  "no_items listHtml = Inr []"

definition valid_uid :: string where
  "valid_uid = ''MS4wLjABAAAARcAHmmF9mAG3JEixq_CdP72APhBlGlLVbN-1eBcPqao''"

definition tag_worker :: "nat \<Rightarrow> string \<Rightarrow> (error + string \<times> nat) \<times> nat" where
  "tag_worker n x = (Inr (x, n), Suc n)"

definition req_negative :: inv_request where
  "req_negative = \<lparr> query_limit = Some ''-1'', query_cookie = None, query_puppeteer = None,
                    header_cookie = None \<rparr>"

definition req_two :: inv_request where
  "req_two = \<lparr> query_limit = Some ''2'', query_cookie = None, query_puppeteer = None,
               header_cookie = None \<rparr>"

definition three_items :: "string \<Rightarrow> string + string list" where
  "three_items listHtml = Inr [''a'', ''b'', ''c'']"

definition plain_page :: string where
  "plain_page = ''<html><article></article></html>''"

definition plain_direct :: "string \<Rightarrow> string + string" where
  "plain_direct cookie = Inr plain_page"

definition w_plain :: mp_world where
  "w_plain =
     \<lparr> direct_response = plain_direct, puppeteer_page = blocked_browser, destory_throws = False,
       puppeteerRealBrowserService = None, real_browser_response = Inl ''not configured'' \<rparr>"

definition mk_item :: "string \<Rightarrow> item" where
  "mk_item l = \<lparr> title = None, link = l, description = None \<rparr>"

definition rss_body :: "string \<Rightarrow> string + string" where
  "rss_body cookie = Inr ''  <rss></rss>''"

definition rss_entries :: "string \<Rightarrow> string + string list option" where
  "rss_entries feedContent = Inr (Some [''a'', ''b'', ''c''])"

definition article_unreachable :: "string \<Rightarrow> string \<Rightarrow> string + document" where
  "article_unreachable l cookie = Inl ''403''"

definition no_browser :: "string \<Rightarrow> string + (string + document)" where
  "no_browser l = Inl ''no browser''"

definition never :: "string \<Rightarrow> bool" where
  "never l = False"

definition ln_plain :: "string ln_world" where
  "ln_plain =
     \<lparr> feed_response = rss_body, parseString = rss_entries, got_article = article_unreachable,
       puppeteer_article = no_browser, article_destory_throws = never \<rparr>"

definition no_cached_item :: "item cache" where
  "no_cached_item key = None"

definition fresh_cache :: "nat dedup" where
  "fresh_cache = \<lparr> entries = Map.empty, invoked = [], returned = [] \<rparr>"

definition late_steps :: "nat cache_step list" where
  "late_steps = [Call 2 ''k'' 1, Call 9 ''other'' 1, Call 3 ''k'' 2]"

definition xhs_no_cookie :: xhs_request where
  "xhs_no_cookie =
     \<lparr> url_vokecookie_b64 = None, query_vokecookie_b64 = None,
       header_XIAOHONGSHU_COOKIE = None, header_XIAOHONGSHU_dash_COOKIE = None \<rparr>"

definition req_no_cookie :: inv_request where
  "req_no_cookie = \<lparr> query_limit = None, query_cookie = None, query_puppeteer = None,
                     header_cookie = None \<rparr>"

definition no_log :: cookie_log where
  "no_log = \<lparr> log_source = ''none'', log_length = 0, log_prefix = ''none'' \<rparr>"

section \<open>Properties\<close>

subsection \<open>Credential precedence\<close>

text \<open>
  C1, as amended. In xiaohongshu/check-cookie the query value is the value decoded from
  the URL when the URL has the parameter and the plain query parameter otherwise, and
  the header value is the first of the two headers that is not empty. The highest source
  that is not empty wins outright: the query value, with source \<open>query\<close>, otherwise the
  header value, with source \<open>header\<close>, otherwise the value of the configuration, with
  source \<open>config\<close>, or \<open>none\<close> when that is empty too. In the two investing handlers no
  source is dropped: the cookie is the values of query, header and environment that are
  not empty, in this order, joined by \<open>; \<close>, so that all three give \<open>q; h; c\<close> and header
  and environment alone give \<open>h; c\<close>. Its label is \<open>query+env/header\<close> when the query
  value is not empty, otherwise \<open>header+env\<close> when the header value is not empty,
  otherwise \<open>env\<close> when the environment value is not empty, otherwise \<open>none\<close>, with the
  empty cookie.
\<close>

theorem credential_precedence:
  "(url_vokecookie_b64 x = Some v \<longrightarrow> xhs_cookieFromQuery x = Some v)
   \<and> (url_vokecookie_b64 x = None \<longrightarrow> xhs_cookieFromQuery x = query_vokecookie_b64 x)
   \<and> (truthy (header_XIAOHONGSHU_COOKIE x) \<longrightarrow> xhs_headerCookie x = header_XIAOHONGSHU_COOKIE x)
   \<and> (\<not> truthy (header_XIAOHONGSHU_COOKIE x) \<longrightarrow> xhs_headerCookie x = header_XIAOHONGSHU_dash_COOKIE x)
   \<and> (truthy (xhs_cookieFromQuery x) \<longrightarrow>
      xhs_cookie x cfg = xhs_cookieFromQuery x \<and> xhs_cookieSource x cfg = ''query'')
   \<and> (\<not> truthy (xhs_cookieFromQuery x) \<and> truthy (xhs_headerCookie x) \<longrightarrow>
      xhs_cookie x cfg = xhs_headerCookie x \<and> xhs_cookieSource x cfg = ''header'')
   \<and> (\<not> truthy (xhs_cookieFromQuery x) \<and> \<not> truthy (xhs_headerCookie x) \<and> truthy cfg \<longrightarrow>
      xhs_cookie x cfg = cfg \<and> xhs_cookieSource x cfg = ''config'')
   \<and> (\<not> truthy (xhs_cookieFromQuery x) \<and> \<not> truthy (xhs_headerCookie x) \<and> \<not> truthy cfg \<longrightarrow>
      xhs_cookie x cfg = cfg \<and> xhs_cookieSource x cfg = ''none'')
   \<and> inv_cookie r e =
        js_join ''; ''
          (filter (\<lambda>s. s \<noteq> [])
             (map (\<lambda>v. case v of None \<Rightarrow> [] | Some s \<Rightarrow> s)
                [query_cookie r, header_cookie r, Investing_Cookie e]))
   \<and> (query_cookie r = Some q \<and> header_cookie r = Some h \<and> Investing_Cookie e = Some c
        \<and> q \<noteq> [] \<and> h \<noteq> [] \<and> c \<noteq> [] \<longrightarrow>
      inv_cookie r e = q @ ''; '' @ h @ ''; '' @ c \<and> inv_cookieSource r e = ''query+env/header'')
   \<and> (\<not> truthy (query_cookie r) \<and> header_cookie r = Some h \<and> Investing_Cookie e = Some c
        \<and> h \<noteq> [] \<and> c \<noteq> [] \<longrightarrow>
      inv_cookie r e = h @ ''; '' @ c \<and> inv_cookieSource r e = ''header+env'')
   \<and> (truthy (query_cookie r) \<longrightarrow> inv_cookieSource r e = ''query+env/header'')
   \<and> (\<not> truthy (query_cookie r) \<and> truthy (header_cookie r) \<longrightarrow> inv_cookieSource r e = ''header+env'')
   \<and> (\<not> truthy (query_cookie r) \<and> \<not> truthy (header_cookie r) \<and> truthy (Investing_Cookie e) \<longrightarrow>
      inv_cookieSource r e = ''env'')
   \<and> (\<not> truthy (query_cookie r) \<and> \<not> truthy (header_cookie r) \<and> \<not> truthy (Investing_Cookie e) \<longrightarrow>
      inv_cookie r e = [] \<and> inv_cookieSource r e = ''none'')"
  by (auto simp: xhs_cookie_def xhs_cookieSource_def xhs_cookieFromQuery_def xhs_headerCookie_def
      js_or_def js_nullish_def inv_cookie_def inv_cookieParts_def
      pushIf_def inv_cookieSource_def truthy_def split: option.splits)

theorem credential_precedence_witness:
  "truthy (xhs_cookieFromQuery xhs_query_and_header)
   \<and> xhs_cookie xhs_query_and_header (Some ''c'') = Some ''a''
   \<and> xhs_cookieSource xhs_query_and_header (Some ''c'') = ''query''
   \<and> \<not> truthy (xhs_cookieFromQuery xhs_header_only) \<and> truthy (xhs_headerCookie xhs_header_only)
   \<and> xhs_cookie xhs_header_only (Some ''c'') = Some ''b''
   \<and> xhs_cookieSource xhs_header_only (Some ''c'') = ''header''
   \<and> \<not> truthy (xhs_cookieFromQuery xhs_no_cookie) \<and> \<not> truthy (xhs_headerCookie xhs_no_cookie)
   \<and> xhs_cookie xhs_no_cookie (Some ''c'') = Some ''c''
   \<and> xhs_cookieSource xhs_no_cookie (Some ''c'') = ''config''
   \<and> xhs_cookie xhs_no_cookie None = None
   \<and> xhs_cookieSource xhs_no_cookie None = ''none''
   \<and> inv_cookie req_abc env_c = ''a; b; c''
   \<and> inv_cookieSource req_abc env_c = ''query+env/header''
   \<and> \<not> truthy (query_cookie req_header_only)
   \<and> inv_cookie req_header_only env_c = ''b; c''
   \<and> inv_cookieSource req_header_only env_c = ''header+env''
   \<and> inv_cookie req_no_cookie env_c = ''c''
   \<and> inv_cookieSource req_no_cookie env_c = ''env''
   \<and> inv_cookie req_no_cookie env_none = []
   \<and> inv_cookieSource req_no_cookie env_none = ''none''"
  using credential_precedence [of xhs_query_and_header "''a''" "Some ''c''" req_abc env_c "''a''" "''b''" "''c''"]
        credential_precedence [of xhs_header_only "''a''" "Some ''c''" req_header_only env_c "''a''" "''b''" "''c''"]
        credential_precedence [of xhs_no_cookie "''a''" "Some ''c''" req_no_cookie env_c "''a''" "''b''" "''c''"]
        credential_precedence [of xhs_no_cookie "''a''" None req_no_cookie env_none "''a''" "''b''" "''c''"]
  by (simp add: xhs_query_and_header_def xhs_header_only_def xhs_no_cookie_def req_abc_def
      req_header_only_def req_no_cookie_def env_c_def env_none_def truthy_def)

text \<open>
  The claim as written fails in the investing handlers: with query \<open>a\<close>, header \<open>b\<close> and
  environment \<open>c\<close> the cookie is \<open>a; b; c\<close>, not \<open>a\<close>.
\<close>

theorem credential_precedence_counterexample:
  "inv_cookie req_abc env_c = ''a; b; c'' \<and> inv_cookie req_abc env_c \<noteq> ''a''
   \<and> inv_cookieSource req_abc env_c = ''query+env/header''"
  by (simp add: req_abc_def env_c_def inv_cookie_def inv_cookieParts_def pushIf_def
      inv_cookieSource_def truthy_def)

subsection \<open>The credential preview in the log\<close>

lemma length_cookiePrefix: "length (cookiePrefix c) \<le> 32"
  by (simp add: cookiePrefix_def)

lemma cookiePrefix_long: "32 < length c \<Longrightarrow> cookiePrefix c \<noteq> c"
proof
  assume a: "32 < length c" and b: "cookiePrefix c = c"
  have "length (cookiePrefix c) \<le> 32" by (rule length_cookiePrefix)
  with a b show False by simp
qed

text \<open>
  C2, as amended. In the investing, xiaohongshu and douyin handlers the preview written
  to the log never has more than 32 characters; for a cookie that is not empty it is the
  first 32 characters of the cookie; and for a cookie of more than 32 characters it is
  not the whole cookie.
\<close>

theorem log_preview_bounded:
  "length (log_prefix (fst (inv_log req env))) \<le> 32
   \<and> (inv_cookie req env \<noteq> [] \<longrightarrow> log_prefix (fst (inv_log req env)) = take 32 (inv_cookie req env))
   \<and> (32 < length (inv_cookie req env) \<longrightarrow> log_prefix (fst (inv_log req env)) \<noteq> inv_cookie req env)
   \<and> length (log_prefix (xhs_log x cfg)) \<le> 32
   \<and> (xhs_cookie x cfg = Some c \<and> c \<noteq> [] \<longrightarrow> log_prefix (xhs_log x cfg) = take 32 c)
   \<and> (xhs_cookie x cfg = Some c \<and> 32 < length c \<longrightarrow> log_prefix (xhs_log x cfg) \<noteq> c)
   \<and> length (log_prefix (douyin_log h dcfg)) \<le> 32
   \<and> (douyin_cookie h dcfg = Some c \<and> c \<noteq> [] \<longrightarrow> log_prefix (douyin_log h dcfg) = take 32 c)
   \<and> (douyin_cookie h dcfg = Some c \<and> 32 < length c \<longrightarrow> log_prefix (douyin_log h dcfg) \<noteq> c)"
  using cookiePrefix_long [of c] cookiePrefix_long [of "inv_cookie req env"]
  by (auto simp: inv_log_def xhs_log_def douyin_log_def Let_def opt_prefix_def length_cookiePrefix
      split: option.splits) (simp_all add: cookiePrefix_def)

theorem log_preview_bounded_witness:
  "inv_cookie req_long env_none = long_cookie
   \<and> 32 < length long_cookie
   \<and> log_prefix (fst (inv_log req_long env_none)) = take 32 long_cookie
   \<and> log_prefix (fst (inv_log req_long env_none)) \<noteq> long_cookie
   \<and> xhs_cookie xhs_long None = Some long_cookie
   \<and> log_prefix (xhs_log xhs_long None) = take 32 long_cookie
   \<and> log_prefix (xhs_log xhs_long None) \<noteq> long_cookie
   \<and> douyin_cookie (Some long_cookie) None = Some long_cookie
   \<and> log_prefix (douyin_log (Some long_cookie) None) = take 32 long_cookie
   \<and> log_prefix (douyin_log (Some long_cookie) None) \<noteq> long_cookie"
proof -
  have c: "inv_cookie req_long env_none = long_cookie"
    by (simp add: inv_cookie_def inv_cookieParts_def pushIf_def req_long_def env_none_def long_cookie_def)
  have l: "32 < length long_cookie" and n: "long_cookie \<noteq> []"
    by (simp_all add: long_cookie_def)
  have x: "xhs_cookie xhs_long None = Some long_cookie"
    using n by (simp add: xhs_cookie_def xhs_cookieFromQuery_def xhs_headerCookie_def js_or_def
        js_nullish_def truthy_def xhs_long_def)
  have d: "douyin_cookie (Some long_cookie) None = Some long_cookie"
    using n by (simp add: douyin_cookie_def js_or_def truthy_def)
  show ?thesis
    using log_preview_bounded [of req_long env_none xhs_long None long_cookie "Some long_cookie" None]
      c l n x d by simp
qed

text \<open>
  The claim as written fails for a short cookie: the preview is the whole credential.
\<close>

theorem log_preview_counterexample:
  "inv_cookie req_abc env_c = ''a; b; c'' \<and> log_prefix (fst (inv_log req_abc env_c)) = ''a; b; c''"
  by (simp add: req_abc_def env_c_def inv_log_def inv_cookie_def inv_cookieParts_def pushIf_def
      cookiePrefix_def)

text \<open>
  In twitter/user the log line has no preview at all: a password decoded from the query
  is written whole.
\<close>

lemma twitter_log_whole_values:
  "passwordFromQuery = Some pw \<Longrightarrow> pw \<noteq> [] \<Longrightarrow>
   \<exists>l. twitter_decoded_log usernameFromQuery passwordFromQuery authTokenFromQuery = Some l
        \<and> tw_password l = pw"
  by (simp add: twitter_decoded_log_def truthy_def or_none_def)

subsection \<open>Extraction order\<close>

text \<open>
  C7, as amended. The container is the first of \<open>#articlePage\<close>, \<open>.articlePage\<close> and
  \<open>article\<close> that matches an element; when the inner HTML of its first element is not
  empty, that is the result, so a match of \<open>#articlePage\<close> with content wins whatever the
  later selectors match. When no container matches, or the inner HTML of the chosen
  container is empty, the result is the \<open>og:description\<close> content, without trying the
  later containers.
\<close>

theorem extraction_order:
  "(sel_id_articlePage d = h # r \<and> h \<noteq> [] \<longrightarrow> extract_html d = Some h)
   \<and> (sel_id_articlePage d = [] \<and> sel_class_articlePage d = h # r \<and> h \<noteq> [] \<longrightarrow> extract_html d = Some h)
   \<and> (sel_id_articlePage d = [] \<and> sel_class_articlePage d = [] \<and> sel_article d = h # r \<and> h \<noteq> []
        \<longrightarrow> extract_html d = Some h)
   \<and> (\<not> truthy (html_of (if sel_id_articlePage d \<noteq> [] then sel_id_articlePage d
                          else if sel_class_articlePage d \<noteq> [] then sel_class_articlePage d
                          else sel_article d))
        \<longrightarrow> extract_html d = meta_og_description d)"
  by (auto simp: extract_html_def html_of_def js_or_def truthy_def Let_def split: list.splits)

theorem extraction_order_witness:
  "extract_html doc_both = Some ''<p>one</p>''
   \<and> extract_html doc_class = Some ''<p>two</p>''
   \<and> extract_html doc_article = Some ''<p>three</p>''
   \<and> \<not> truthy (html_of (sel_id_articlePage doc_empty_container))
   \<and> extract_html doc_empty_container = Some ''summary''"
  using extraction_order [of doc_both "''<p>one</p>''" "[]"]
        extraction_order [of doc_class "''<p>two</p>''" "[]"]
        extraction_order [of doc_article "''<p>three</p>''" "[]"]
        extraction_order [of doc_empty_container "[]" "[]"]
  by (simp add: doc_both_def doc_class_def doc_article_def doc_empty_container_def html_of_def truthy_def)

text \<open>
  The claim as written fails when \<open>#articlePage\<close> matches an element without content:
  both the first and the second selector match, the second with content, and the result
  is the description of the meta element.
\<close>

theorem extraction_order_counterexample:
  "sel_id_articlePage doc_empty_container = [[]]
   \<and> sel_class_articlePage doc_empty_container = [''<p>body</p>'']
   \<and> extract_html doc_empty_container = Some ''summary''"
  by (simp add: doc_empty_container_def extract_html_def html_of_def js_or_def truthy_def)

subsection \<open>The check of the uid in the douyin handlers\<close>

lemma tryGet_not_invalid:
  assumes "\<And>m. snd p \<noteq> Inl (InvalidParameterError m)"
  shows "snd (fst (tryGet k p c)) \<noteq> Inl (InvalidParameterError m)"
  using assms by (cases p) (auto simp: tryGet_def split: option.splits sum.splits)

lemma user_web_producer_not_invalid:
  "snd (user_web_producer cookie w) \<noteq> Inl (InvalidParameterError m)"
  by (auto simp: user_web_producer_def empty_post_data_def split: sum.splits option.splits)

lemma user_producer_not_invalid:
  "snd (user_producer cookie uid w) \<noteq> Inl (InvalidParameterError m)"
  by (auto simp: user_producer_def douyin_browser_def empty_post_data_def Let_def
      split: sum.splits option.splits prod.splits if_splits)

lemma throwing_not_invalid: "throwing r \<noteq> Inl (InvalidParameterError m)"
  by (simp add: throwing_def split: sum.splits)

lemma user_web_handler_valid:
  assumes "prefix ''MS4wLjABAAAA'' uid"
  shows "snd (fst (user_web_handler render uid w c)) \<noteq> Inl (InvalidParameterError m)"
proof -
  obtain ev r c' where t: "tryGet (''douyin:user-web:'' @ uid)
      (user_web_producer (douyin_cookie (header_DOUYIN_COOKIES w) (config_douyin_cookies w)) w) c = ((ev, r), c')"
    by (metis surj_pair)
  have "r \<noteq> Inl (InvalidParameterError m)"
    using tryGet_not_invalid [OF user_web_producer_not_invalid, of _  _ _ c m] t
    by (metis fst_conv snd_conv)
  with t assms show ?thesis
    by (cases r) (simp_all add: user_web_handler_def Let_def throwing_not_invalid)
qed

lemma user_handler_valid:
  assumes "prefix ''MS4wLjABAAAA'' uid"
  shows "snd (fst (user_handler render uid w c)) \<noteq> Inl (InvalidParameterError m)"
proof -
  obtain ev r c' where t: "tryGet (''douyin:user:'' @ uid)
      (user_producer (douyin_cookie (header_DOUYIN_COOKIES w) (config_douyin_cookies w)) uid w) c = ((ev, r), c')"
    by (metis surj_pair)
  have "r \<noteq> Inl (InvalidParameterError m)"
    using tryGet_not_invalid [OF user_producer_not_invalid, of _ _ _ _ c m] t
    by (metis fst_conv snd_conv)
  with t assms show ?thesis
    by (cases r) (simp_all add: user_handler_def Let_def throwing_not_invalid empty_post_data_def)
qed

text \<open>
  C10. Each of the two douyin handlers ends with an \<open>InvalidParameterError\<close> exactly when
  the uid does not start with \<open>MS4wLjABAAAA\<close>; in that case it has produced no event (no
  header read, no log line, no cache access, no request, no browser) and the cache is
  as it was.
\<close>

theorem invalid_uid_first:
  "((\<exists>m. snd (fst (user_web_handler render uid w c)) = Inl (InvalidParameterError m))
      \<longleftrightarrow> \<not> prefix ''MS4wLjABAAAA'' uid)
   \<and> ((\<exists>m. snd (fst (user_handler render uid w c)) = Inl (InvalidParameterError m))
      \<longleftrightarrow> \<not> prefix ''MS4wLjABAAAA'' uid)
   \<and> (\<not> prefix ''MS4wLjABAAAA'' uid \<longrightarrow>
        user_web_handler render uid w c = (([], Inl invalid_uid), c)
        \<and> user_handler render uid w c = (([], Inl invalid_uid), c))"
proof (cases "prefix ''MS4wLjABAAAA'' uid")
  case True
  then show ?thesis
    using user_web_handler_valid [of uid render w c] user_handler_valid [of uid render w c] by blast
next
  case False
  then show ?thesis
    by (simp add: user_web_handler_def user_handler_def invalid_uid_def)
qed

theorem invalid_uid_first_witness:
  "\<not> prefix ''MS4wLjABAAAA'' ''12345''
   \<and> user_web_handler count_posts ''12345'' dy_goto_timeout empty_cache = (([], Inl invalid_uid), empty_cache)
   \<and> user_handler count_posts ''12345'' dy_goto_timeout empty_cache = (([], Inl invalid_uid), empty_cache)
   \<and> prefix ''MS4wLjABAAAA'' valid_uid
   \<and> snd (fst (user_web_handler count_posts valid_uid dy_goto_timeout empty_cache)) = Inl empty_post_data
   \<and> (\<nexists>m. snd (fst (user_web_handler count_posts valid_uid dy_goto_timeout empty_cache))
            = Inl (InvalidParameterError m))
   \<and> (\<nexists>m. snd (fst (user_handler count_posts valid_uid dy_goto_timeout empty_cache))
            = Inl (InvalidParameterError m))"
proof -
  have h: "\<not> prefix ''MS4wLjABAAAA'' ''12345''" by simp
  have p: "prefix ''MS4wLjABAAAA'' valid_uid" by (simp add: valid_uid_def)
  have e: "snd (fst (user_web_handler count_posts valid_uid dy_goto_timeout empty_cache)) = Inl empty_post_data"
    using p by (simp add: user_web_handler_def user_web_producer_def tryGet_def empty_cache_def
        dy_goto_timeout_def no_answer_def Let_def)
  show ?thesis
    using invalid_uid_first [of count_posts "''12345''" dy_goto_timeout empty_cache]
      invalid_uid_first [of count_posts valid_uid dy_goto_timeout empty_cache] h p e by blast
qed

subsection \<open>Tier escalation\<close>

lemma attempted_simps [simp]:
  "attempted [] = []"
  "attempted (TierAttempt t # evs) = t # attempted evs"
  "attempted (BrowserOpened # evs) = attempted evs"
  "attempted (BrowserClosed # evs) = attempted evs"
  "attempted (xs @ ys) = attempted xs @ attempted ys"
  by (simp_all add: attempted_def List.map_filter_def)

lemma fetchWithRealBrowser_events:
  "fst (fetchWithRealBrowser w) =
     (if truthy (puppeteerRealBrowserService w) then [TierAttempt ExternalRender] else [])"
  by (simp add: fetchWithRealBrowser_def)

lemma mp_browser_attempted: "attempted (fst (mp_browser cookie w)) = [Browser]"
  by (simp add: mp_browser_def split: sum.splits)

lemma fetchListHtml_attempted:
  "attempted (fst (fetchListHtml cookie usePuppeteer w)) =
     (case mp_direct cookie w of
        Inr _ \<Rightarrow> [Direct]
      | Inl _ \<Rightarrow>
          if \<not> usePuppeteer then [Direct]
          else (case snd (mp_browser cookie w) of
                  Inl _ \<Rightarrow> [Direct, Browser]
                | Inr c \<Rightarrow>
                    if (c = [] \<or> isChallengePage c) \<and> truthy (puppeteerRealBrowserService w)
                    then [Direct, Browser, ExternalRender]
                    else [Direct, Browser]))"
proof -
  obtain ev r where b: "mp_browser cookie w = (ev, r)" by (cases "mp_browser cookie w")
  obtain ev' html where f: "fetchWithRealBrowser w = (ev', html)" by (cases "fetchWithRealBrowser w")
  have a: "attempted ev = [Browser]" using mp_browser_attempted [of cookie w] b by simp
  have e: "ev' = (if truthy (puppeteerRealBrowserService w) then [TierAttempt ExternalRender] else [])"
    using fetchWithRealBrowser_events [of w] f by simp
  show ?thesis
    by (simp add: fetchListHtml_def b f a e split: sum.splits)
qed

lemma ln_producer_attempted:
  "attempted (fst (ln_producer cookie usePuppeteer w it)) =
     (if cookie = [] then [] else [Direct]) @
     (if \<not> fst (snd (tryGot cookie w it)) \<and> usePuppeteer then [Browser] else [])"
  by (auto simp: ln_producer_def tryGot_def Let_def split: sum.splits prod.splits)

text \<open>
  C4, as amended. In \<^verbatim>\<open>fetchListHtml\<close> of investing/most-popular-news the Browser tier is
  attempted exactly when the direct request threw or its body was empty or a challenge
  page, and puppeteer is enabled; the ExternalRender tier is attempted only after the
  Browser tier returned content that is empty or a challenge page, and only when the
  service is configured; the attempts are a subsequence of Direct, Browser,
  ExternalRender, so each tier is attempted at most once and in this order. The article
  fetch of investing/latest-news tests no challenge signature and has no third tier:
  there the Direct tier is attempted exactly when the cookie is not empty, and the
  Browser tier exactly when puppeteer is enabled and the cookie is empty, or the direct
  request threw, or nothing was extracted from the document it returned; the attempts
  are a subsequence of Direct, Browser.
\<close>

theorem tier_escalation:
  "(Browser \<in> set (attempted (fst (fetchListHtml cookie usePuppeteer w)))
      \<longleftrightarrow> (case direct_response w cookie of Inl _ \<Rightarrow> True | Inr body \<Rightarrow> body = [] \<or> isChallengePage body)
          \<and> usePuppeteer)
   \<and> (ExternalRender \<in> set (attempted (fst (fetchListHtml cookie usePuppeteer w)))
      \<longrightarrow> Browser \<in> set (attempted (fst (fetchListHtml cookie usePuppeteer w)))
          \<and> (\<exists>c. snd (mp_browser cookie w) = Inr c \<and> (c = [] \<or> isChallengePage c))
          \<and> truthy (puppeteerRealBrowserService w))
   \<and> subseq (attempted (fst (fetchListHtml cookie usePuppeteer w))) [Direct, Browser, ExternalRender]
   \<and> (Direct \<in> set (attempted (fst (ln_producer cookie usePuppeteer lw it))) \<longleftrightarrow> cookie \<noteq> [])
   \<and> (Browser \<in> set (attempted (fst (ln_producer cookie usePuppeteer lw it)))
      \<longleftrightarrow> usePuppeteer
          \<and> (cookie = []
              \<or> (case got_article lw (link it) cookie of
                    Inl _ \<Rightarrow> True
                  | Inr d \<Rightarrow> \<not> truthy (extract_html d))))
   \<and> subseq (attempted (fst (ln_producer cookie usePuppeteer lw it))) [Direct, Browser]"
  apply (simp only: fetchListHtml_attempted ln_producer_attempted)
  apply (auto simp: mp_direct_def tryGot_def Let_def split: sum.splits if_splits)
  done

text \<open>
  The claim as written fails in investing/latest-news: with an empty cookie and puppeteer
  enabled the Browser tier is attempted although the Direct tier was never attempted, so
  that it neither failed nor returned blocked content.
\<close>

theorem tier_escalation_counterexample:
  "attempted (fst (ln_producer [] True ln_plain (mk_item ''a''))) = [Browser]
   \<and> Direct \<notin> set (attempted (fst (ln_producer [] True ln_plain (mk_item ''a''))))"
  by (simp add: ln_producer_def tryGot_def ln_plain_def no_browser_def mk_item_def)

lemma challenge_page_blocked: "isChallengePage challenge_page"
  unfolding challenge_page_def by code_simp

lemma true_is_true: "toLowerCase ''true'' = ''true''"
  by code_simp

lemma req_puppeteer_flags:
  "inv_usePuppeteer req_puppeteer env_none" "inv_cookie req_puppeteer env_none = []"
  "inv_limit req_puppeteer = Some 20"
  by (simp_all add: inv_usePuppeteer_def req_puppeteer_def env_none_def js_nullish_def true_is_true
      inv_cookie_def inv_cookieParts_def pushIf_def inv_limit_def)

lemma w_blocked_run:
  "fetchListHtml [] True w_blocked =
     ([TierAttempt Direct, TierAttempt Browser, BrowserOpened, BrowserClosed, TierAttempt ExternalRender],
      Inr challenge_page)"
  by (simp add: fetchListHtml_def mp_direct_def mp_browser_def fetchWithRealBrowser_def w_blocked_def
      blocked_direct_def blocked_browser_def throwing_def truthy_def challenge_page_blocked)

theorem tier_escalation_witness:
  "ExternalRender \<in> set (attempted (fst (fetchListHtml [] True w_blocked)))
   \<and> Browser \<in> set (attempted (fst (fetchListHtml [] True w_blocked)))
   \<and> snd (mp_browser [] w_blocked) = Inr challenge_page
   \<and> isChallengePage challenge_page
   \<and> truthy (puppeteerRealBrowserService w_blocked)
   \<and> attempted (fst (ln_producer ''c'' True ln_plain (mk_item ''a''))) = [Direct, Browser]"
proof -
  have h: "ExternalRender \<in> set (attempted (fst (fetchListHtml [] True w_blocked)))"
    by (simp add: w_blocked_run)
  have b: "snd (mp_browser [] w_blocked) = Inr challenge_page"
    by (simp add: mp_browser_def w_blocked_def blocked_browser_def throwing_def)
  have l: "attempted (fst (ln_producer ''c'' True ln_plain (mk_item ''a''))) = [Direct, Browser]"
    by (simp add: ln_producer_def tryGot_def ln_plain_def no_browser_def article_unreachable_def mk_item_def)
  from tier_escalation [of "[]" True w_blocked] h b l challenge_page_blocked
  show ?thesis by blast
qed

subsection \<open>An empty answer of the external render service\<close>

text \<open>
  C6, as amended. When the direct request failed or was blocked, puppeteer is enabled, the
  browser returned content that is empty or a challenge page, the service is configured
  and its answer holds an empty list of fragments, then \<^verbatim>\<open>fetchWithRealBrowser\<close> gives
  the empty string without raising, \<^verbatim>\<open>fetchListHtml\<close> returns the content of the browser
  as its result, and the handler does not raise on that account: it returns the feed of
  whatever entries are parsed from that content, cut to the limit (or the exception of
  the parsing).
\<close>

theorem external_empty_fragments:
  assumes "case direct_response w cookie of Inl _ \<Rightarrow> True | Inr body \<Rightarrow> body = [] \<or> isChallengePage body"
    and "usePuppeteer"
    and "snd (mp_browser cookie w) = Inr c"
    and "c = [] \<or> isChallengePage c"
    and "truthy (puppeteerRealBrowserService w)"
    and "real_browser_response w = Inr (Some [])"
  shows "fetchWithRealBrowser w = ([TierAttempt ExternalRender], [])
         \<and> snd (fetchListHtml cookie usePuppeteer w) = Inr c
         \<and> (cookie = inv_cookie req env \<and> usePuppeteer = inv_usePuppeteer req env \<longrightarrow>
              snd (mp_handler parseList req env w) =
                (case parseList c of
                   Inl m \<Rightarrow> Inl (Thrown m)
                 | Inr listItems \<Rightarrow>
                     Inr \<lparr> feed_link = ''https://cn.investing.com/news/most-popular-news'',
                           feed_item = slice0 (inv_limit req) listItems \<rparr>))"
proof -
  have f: "fetchWithRealBrowser w = ([TierAttempt ExternalRender], [])"
    using assms(5,6) by (simp add: fetchWithRealBrowser_def)
  obtain e where d: "mp_direct cookie w = Inl e"
    using assms(1) by (auto simp: mp_direct_def split: sum.splits)
  obtain ev where b: "mp_browser cookie w = (ev, Inr c)"
    using assms(3) by (cases "mp_browser cookie w") simp
  have u: "usePuppeteer = True" using assms(2) by simp
  have l: "fetchListHtml cookie True w = (TierAttempt Direct # ev @ [TierAttempt ExternalRender], Inr c)"
    using assms(4,5) by (simp add: fetchListHtml_def d b f)
  have h: "inv_usePuppeteer req env \<Longrightarrow>
      snd (mp_handler parseList req env w) =
        (case snd (fetchListHtml (inv_cookie req env) True w) of
           Inl e \<Rightarrow> Inl e
         | Inr listHtml \<Rightarrow>
             (case parseList listHtml of
                Inl m \<Rightarrow> Inl (Thrown m)
              | Inr listItems \<Rightarrow>
                  Inr \<lparr> feed_link = ''https://cn.investing.com/news/most-popular-news'',
                        feed_item = slice0 (inv_limit req) listItems \<rparr>))"
    by (simp add: mp_handler_def Let_def split: prod.splits sum.splits)
  show ?thesis
    unfolding u using h l f by (auto split: sum.splits)
qed

theorem external_empty_fragments_witness:
  "fetchWithRealBrowser w_blocked = ([TierAttempt ExternalRender], [])
   \<and> snd (fetchListHtml [] True w_blocked) = Inr challenge_page
   \<and> snd (mp_handler no_items req_puppeteer env_none w_blocked) =
        Inr \<lparr> feed_link = ''https://cn.investing.com/news/most-popular-news'', feed_item = [] \<rparr>"
proof -
  have 1: "case direct_response w_blocked [] of Inl _ \<Rightarrow> True | Inr body \<Rightarrow> body = [] \<or> isChallengePage body"
    by (simp add: w_blocked_def blocked_direct_def challenge_page_blocked)
  have 3: "snd (mp_browser [] w_blocked) = Inr challenge_page"
    by (simp add: mp_browser_def w_blocked_def blocked_browser_def throwing_def)
  have 4: "challenge_page = [] \<or> isChallengePage challenge_page"
    by (simp add: challenge_page_blocked)
  have 5: "truthy (puppeteerRealBrowserService w_blocked)"
    by (simp add: w_blocked_def truthy_def)
  have 6: "real_browser_response w_blocked = Inr (Some [])"
    by (simp add: w_blocked_def)
  show ?thesis
    using external_empty_fragments [OF 1 _ 3 4 5 6, of True req_puppeteer env_none no_items]
    by (simp add: req_puppeteer_flags no_items_def slice0_def)
qed

text \<open>
  The claim as written fails: with the service configured and an empty list of fragments
  the fetch returns the challenge page of the browser tier as a normal result, and the
  handler returns a feed without items instead of an error.
\<close>

theorem external_empty_fragments_counterexample:
  "puppeteerRealBrowserService w_blocked = Some ''http://127.0.0.1:3000''
   \<and> real_browser_response w_blocked = Inr (Some [])
   \<and> snd (fetchListHtml (inv_cookie req_puppeteer env_none) (inv_usePuppeteer req_puppeteer env_none) w_blocked)
       = Inr challenge_page
   \<and> isChallengePage challenge_page
   \<and> snd (mp_handler no_items req_puppeteer env_none w_blocked) =
        Inr \<lparr> feed_link = ''https://cn.investing.com/news/most-popular-news'', feed_item = [] \<rparr>"
  by (simp add: req_puppeteer_flags w_blocked_run challenge_page_blocked mp_handler_def no_items_def
      slice0_def) (simp add: w_blocked_def)

subsection \<open>Release of browser sessions\<close>

text \<open>
  The two investing fetches release the page context on every path on which they were
  given one, and so does the browser part of douyin/user when none of the calls outside
  a \<^verbatim>\<open>try\<close> block throws.
\<close>

lemma open_after_append: "open_after n (xs @ ys) = open_after (open_after n xs) ys"
  by (induction n xs rule: open_after.induct) simp_all

lemma mp_browser_released: "open_after n (fst (mp_browser cookie w)) = n"
  by (simp add: mp_browser_def split: sum.splits)

lemma fetchListHtml_released: "open_sessions (fst (fetchListHtml cookie usePuppeteer w)) = 0"
proof -
  obtain ev r where b: "mp_browser cookie w = (ev, r)" by (cases "mp_browser cookie w")
  have a: "open_after 0 ev = 0" using mp_browser_released [of 0 cookie w] b by simp
  show ?thesis
    by (simp add: open_sessions_def fetchListHtml_def b a fetchWithRealBrowser_def open_after_append
        split: sum.splits)
qed

lemma ln_producer_released: "open_sessions (fst (ln_producer cookie usePuppeteer w it)) = 0"
  by (auto simp: open_sessions_def ln_producer_def tryGot_def Let_def open_after_append
      split: sum.splits prod.splits)

lemma douyin_browser_released:
  "\<not> newPage_throws w \<Longrightarrow> \<not> setRequestInterception_throws w \<Longrightarrow> \<not> goto_throws w \<Longrightarrow>
   open_sessions (fst (douyin_browser uid w)) = 0"
  by (simp add: open_sessions_def douyin_browser_def Let_def)

text \<open>
  C5 fails in douyin/user: \<^verbatim>\<open>browser.close()\<close> is a plain statement after the awaited
  calls, not a \<^verbatim>\<open>finally\<close> clause. When \<^verbatim>\<open>page.goto\<close> throws (a navigation time-out),
  the exception leaves the producer and the handler, and the browser that was opened is
  never closed.
\<close>

theorem douyin_session_left_open:
  "douyin_browser valid_uid dy_goto_timeout =
     ([BrowserOpened, HttpRequest (page_url valid_uid)], Inl (Thrown ''goto''))
   \<and> open_sessions (fst (douyin_browser valid_uid dy_goto_timeout)) = 1
   \<and> snd (fst (user_handler count_posts valid_uid dy_goto_timeout empty_cache)) = Inl (Thrown ''goto'')
   \<and> open_sessions (fst (fst (user_handler count_posts valid_uid dy_goto_timeout empty_cache))) = 1"
proof -
  have p: "prefix ''MS4wLjABAAAA'' valid_uid" by (simp add: valid_uid_def)
  have b: "douyin_browser valid_uid dy_goto_timeout =
     ([BrowserOpened, HttpRequest (page_url valid_uid)], Inl (Thrown ''goto''))"
    by (simp add: douyin_browser_def dy_goto_timeout_def)
  show ?thesis
    using p by (simp add: b user_handler_def user_producer_def tryGet_def empty_cache_def Let_def
        open_sessions_def)
qed

subsection \<open>Order of the batch\<close>

lemma runSerial_order:
  "runSerial worker xs out s = (Inr res, s') \<Longrightarrow>
   \<exists>ys. res = out @ ys \<and> list_all2 (\<lambda>x y. \<exists>t t'. worker t x = (Inr y, t')) xs ys"
proof (induction xs arbitrary: out s)
  case Nil
  then show ?case by simp
next
  case (Cons x xs)
  obtain r s1 where w: "worker s x = (r, s1)" by (cases "worker s x")
  show ?case
  proof (cases r)
    case (Inl e)
    with Cons.prems w show ?thesis by simp
  next
    case (Inr y)
    with Cons.prems w have "runSerial worker xs (out @ [y]) s1 = (Inr res, s')" by simp
    from Cons.IH [OF this] obtain ys where
      ys: "res = (out @ [y]) @ ys" "list_all2 (\<lambda>x y. \<exists>t t'. worker t x = (Inr y, t')) xs ys"
      by blast
    have "\<exists>t t'. worker t x = (Inr y, t')" using w Inr by blast
    with ys show ?thesis by auto
  qed
qed

lemma runSerial_returns:
  assumes "\<forall>t x. \<exists>y t'. worker t x = (Inr y, t')"
  shows "\<exists>res s'. runSerial worker xs out s = (Inr res, s')"
proof (induction xs arbitrary: out s)
  case Nil
  then show ?case by simp
next
  case (Cons x xs)
  from assms obtain y s1 where "worker s x = (Inr y, s1)" by blast
  with Cons.IH [of "out @ [y]" s1] show ?case by simp
qed

lemma dispatchAll_order:
  "dispatchAll worker xs s = (ps, s') \<Longrightarrow>
   list_all2 (\<lambda>x r. \<exists>t t'. worker t x = (r, t')) xs ps"
proof (induction xs arbitrary: s ps s')
  case Nil
  then show ?case by simp
next
  case (Cons x xs)
  obtain r s1 where w: "worker s x = (r, s1)" by (cases "worker s x")
  obtain rs s2 where d: "dispatchAll worker xs s1 = (rs, s2)" by (cases "dispatchAll worker xs s1")
  from Cons.prems w d have p: "ps = r # rs" by simp
  have "\<exists>t t'. worker t x = (r, t')" using w by blast
  with Cons.IH [OF d] p show ?case by simp
qed

lemma those_Some: "those xs = Some ys \<Longrightarrow> xs = map Some ys"
  by (induction xs arbitrary: ys) (auto split: option.splits)

lemma those_filled: "\<forall>i<length xs. xs ! i \<noteq> None \<Longrightarrow> \<exists>ys. those xs = Some ys"
proof (induction xs)
  case Nil
  then show ?case by simp
next
  case (Cons x xs)
  from Cons.prems have "x \<noteq> None" by auto
  moreover from Cons.prems have "\<forall>i<length xs. xs ! i \<noteq> None" by auto
  ultimately show ?case using Cons.IH by auto
qed

lemma settleAll_order:
  assumes "settleAll ps sched slots = Some (Inr res)"
    and "length slots = length ps"
    and "\<forall>i<length ps. \<forall>y. slots ! i = Some y \<longrightarrow> ps ! i = Inr y"
  shows "ps = map Inr res"
  using assms
proof (induction sched arbitrary: slots)
  case Nil
  from Nil.prems(1) have "those slots = Some res" by (simp split: option.splits)
  then have m: "slots = map Some res" by (rule those_Some)
  with Nil.prems(2) have l: "length ps = length res" by simp
  show ?case
  proof (rule nth_equalityI)
    show "length ps = length (map Inr res)" using l by simp
  next
    fix i assume i: "i < length ps"
    with m l have "slots ! i = Some (res ! i)" by simp
    with Nil.prems(3) i have "ps ! i = Inr (res ! i)" by blast
    with i l show "ps ! i = map Inr res ! i" by simp
  qed
next
  case (Cons i sched)
  show ?case
  proof (cases "i < length ps \<and> i < length slots \<and> slots ! i = None")
    case False
    with Cons.prems(1) have "settleAll ps sched slots = Some (Inr res)" by auto
    from Cons.IH [OF this Cons.prems(2,3)] show ?thesis .
  next
    case True
    show ?thesis
    proof (cases "ps ! i")
      case (Inl e)
      with Cons.prems(1) True show ?thesis by simp
    next
      case (Inr y)
      with Cons.prems(1) True
      have run: "settleAll ps sched (slots[i := Some y]) = Some (Inr res)" by simp
      have len: "length (slots[i := Some y]) = length ps" using Cons.prems(2) by simp
      have inv: "\<forall>j<length ps. \<forall>z. (slots[i := Some y]) ! j = Some z \<longrightarrow> ps ! j = Inr z"
      proof (intro allI impI)
        fix j z assume j: "j < length ps" and z: "(slots[i := Some y]) ! j = Some z"
        show "ps ! j = Inr z"
        proof (cases "j = i")
          case True
          with z j Cons.prems(2) have "z = y" by simp
          with Inr True show ?thesis by simp
        next
          case False
          with z have "slots ! j = Some z" by simp
          with Cons.prems(3) j show ?thesis by blast
        qed
      qed
      from Cons.IH [OF run len inv] show ?thesis .
    qed
  qed
qed

lemma settleAll_returns:
  assumes "\<forall>i<length ps. \<exists>y. ps ! i = Inr y"
    and "length slots = length ps"
    and "\<forall>i<length ps. i \<notin> set sched \<longrightarrow> slots ! i \<noteq> None"
  shows "\<exists>res. settleAll ps sched slots = Some (Inr res)"
  using assms(2,3)
proof (induction sched arbitrary: slots)
  case Nil
  then have "\<forall>i<length slots. slots ! i \<noteq> None" by simp
  from those_filled [OF this] show ?case by auto
next
  case (Cons i sched)
  show ?case
  proof (cases "i < length ps \<and> i < length slots \<and> slots ! i = None")
    case False
    have "\<forall>j<length ps. j \<notin> set sched \<longrightarrow> slots ! j \<noteq> None"
    proof (intro allI impI)
      fix j assume j: "j < length ps" "j \<notin> set sched"
      show "slots ! j \<noteq> None"
      proof (cases "j = i")
        case True
        with False j Cons.prems(1) show ?thesis by simp
      next
        case False
        with j Cons.prems(2) show ?thesis by simp
      qed
    qed
    from Cons.IH [OF Cons.prems(1) this] False show ?thesis by auto
  next
    case True
    with assms(1) obtain y where w: "ps ! i = Inr y" by blast
    have len: "length (slots[i := Some y]) = length ps" using Cons.prems(1) by simp
    have inv: "\<forall>j<length ps. j \<notin> set sched \<longrightarrow> (slots[i := Some y]) ! j \<noteq> None"
    proof (intro allI impI)
      fix j assume j: "j < length ps" "j \<notin> set sched"
      show "(slots[i := Some y]) ! j \<noteq> None"
      proof (cases "j = i")
        case True
        with j Cons.prems(1) show ?thesis by simp
      next
        case False
        with j Cons.prems(2) show ?thesis by simp
      qed
    qed
    from Cons.IH [OF len inv] True w show ?thesis by simp
  qed
qed

lemma runBatch_order:
  assumes "runBatch usePuppeteer worker sched xs s = (Some (Inr out), s')"
  shows "list_all2 (\<lambda>x y. \<exists>t t'. worker t x = (Inr y, t')) xs out"
proof (cases usePuppeteer)
  case True
  with assms have "runSerial worker xs [] s = (Inr out, s')"
    by (simp add: runBatch_def split: prod.splits)
  from runSerial_order [OF this] show ?thesis by simp
next
  case False
  obtain ps s1 where d: "dispatchAll worker xs s = (ps, s1)" by (cases "dispatchAll worker xs s")
  from dispatchAll_order [OF d]
  have o: "list_all2 (\<lambda>x r. \<exists>t t'. worker t x = (r, t')) xs ps" .
  then have l: "length xs = length ps" by (rule list_all2_lengthD)
  from assms False d have "settleAll ps sched (replicate (length ps) None) = Some (Inr out)"
    by (simp add: runBatch_def promiseAll_def l)
  then have "ps = map Inr out" by (rule settleAll_order) simp_all
  with o show ?thesis by (simp add: list_all2_map2)
qed

lemma runBatch_returns:
  assumes "\<forall>t x. \<exists>y t'. worker t x = (Inr y, t')" and "{0..<length xs} \<subseteq> set sched"
  shows "\<exists>out s'. runBatch usePuppeteer worker sched xs s = (Some (Inr out), s')"
proof (cases usePuppeteer)
  case True
  from runSerial_returns [OF assms(1), of xs "[]" s] True show ?thesis
    by (auto simp: runBatch_def)
next
  case False
  obtain ps s1 where d: "dispatchAll worker xs s = (ps, s1)" by (cases "dispatchAll worker xs s")
  from dispatchAll_order [OF d]
  have o: "list_all2 (\<lambda>x r. \<exists>t t'. worker t x = (r, t')) xs ps" .
  then have l: "length xs = length ps" by (rule list_all2_lengthD)
  have a: "\<forall>i<length ps. \<exists>y. ps ! i = Inr y"
  proof (intro allI impI)
    fix i assume i: "i < length ps"
    with o l obtain t t' where w: "worker t (xs ! i) = (ps ! i, t')"
      by (auto simp: list_all2_conv_all_nth)
    from assms(1) obtain y t'' where "worker t (xs ! i) = (Inr y, t'')" by blast
    with w have "ps ! i = Inr y" by simp
    then show "\<exists>y. ps ! i = Inr y" by blast
  qed
  have "\<forall>i<length ps. i \<notin> set sched \<longrightarrow> replicate (length ps) None ! i \<noteq> None"
    using assms(2) l by auto
  from settleAll_returns [OF a _ this] obtain res
    where "settleAll ps sched (replicate (length ps) None) = Some (Inr res)" by auto
  with False d l show ?thesis
    by (simp add: runBatch_def promiseAll_def)
qed

text \<open>
  C8. Under both policies, the sequential loop when puppeteer is enabled and
  \<^verbatim>\<open>Promise.all\<close> otherwise, a batch that returns gives one result per item, and the
  result at each position was returned by the worker called on the item at the same
  position, whatever the order in which the calls settle. A batch whose worker never
  throws returns, under the concurrent policy as soon as every call has settled. This
  holds for every length of the input, the empty list included.
\<close>

theorem batch_order:
  "(runBatch usePuppeteer worker sched xs s = (Some (Inr out), s') \<longrightarrow>
      length out = length xs \<and> list_all2 (\<lambda>x y. \<exists>t t'. worker t x = (Inr y, t')) xs out)
   \<and> ((\<forall>t x. \<exists>y t'. worker t x = (Inr y, t')) \<and> {0..<length xs} \<subseteq> set sched \<longrightarrow>
        (\<exists>res t. runBatch usePuppeteer worker sched xs s = (Some (Inr res), t)))"
proof (intro conjI impI)
  assume r: "runBatch usePuppeteer worker sched xs s = (Some (Inr out), s')"
  from runBatch_order [OF r]
  show "list_all2 (\<lambda>x y. \<exists>t t'. worker t x = (Inr y, t')) xs out" .
  then show "length out = length xs" by (simp add: list_all2_lengthD)
next
  assume "(\<forall>t x. \<exists>y t'. worker t x = (Inr y, t')) \<and> {0..<length xs} \<subseteq> set sched"
  then show "\<exists>res t. runBatch usePuppeteer worker sched xs s = (Some (Inr res), t)"
    using runBatch_returns [of worker xs sched usePuppeteer s] by blast
qed

theorem batch_order_witness:
  "runBatch False tag_worker [2, 0, 1] [''a'', ''b'', ''c''] 0 =
     (Some (Inr [(''a'', 0), (''b'', 1), (''c'', 2)]), 3)
   \<and> length [(''a'', 0::nat), (''b'', 1), (''c'', 2)] = length [''a'', ''b'', ''c'']
   \<and> list_all2 (\<lambda>x y. \<exists>t t'. tag_worker t x = (Inr y, t')) [''a'', ''b'', ''c'']
        [(''a'', 0), (''b'', 1), (''c'', 2)]
   \<and> (\<exists>res t. runBatch True tag_worker [2, 0, 1] [''a'', ''b'', ''c''] 0 = (Some (Inr res), t))"
proof -
  have r: "runBatch False tag_worker [2, 0, 1] [''a'', ''b'', ''c''] 0 =
     (Some (Inr [(''a'', 0), (''b'', 1), (''c'', 2)]), 3)"
    by code_simp
  have t: "\<forall>t x. \<exists>y t'. tag_worker t x = (Inr y, t')"
    by (simp add: tag_worker_def)
  have c: "{0..<length [''a'', ''b'', ''c'']} \<subseteq> set [2, 0, 1::nat]"
    by auto
  show ?thesis
    using batch_order [of False tag_worker "[2, 0, 1]" "[''a'', ''b'', ''c'']" 0
        "[(''a'', 0), (''b'', 1), (''c'', 2)]" 3]
      batch_order [of True tag_worker "[2, 0, 1]" "[''a'', ''b'', ''c'']" 0]
      r t c by blast
qed

subsection \<open>The limit\<close>

lemma slice0_nonneg: "0 \<le> L \<Longrightarrow> slice0 (Some L) xs = take (nat L) xs"
  by (simp add: slice0_def Let_def min_def)

lemma cache_keys_append: "cache_keys (xs @ ys) = cache_keys xs @ cache_keys ys"
  by (induction xs rule: cache_keys.induct) simp_all

lemma attempted_CacheTryGet: "attempted (CacheTryGet k # evs) = attempted evs"
  by (simp add: attempted_def List.map_filter_def)

lemma ln_producer_no_keys: "cache_keys (fst (ln_producer cookie usePuppeteer w it)) = []"
  by (auto simp: ln_producer_def tryGot_def Let_def cache_keys_append split: sum.splits prod.splits)

lemma ln_producer_two_attempts: "length (attempted (fst (ln_producer cookie usePuppeteer w it))) \<le> 2"
  by (simp add: ln_producer_attempted)

lemma fetchItem_events:
  assumes "fetchItem cookie usePuppeteer w (evs, c) it = (r, (evs', c'))"
  shows "\<exists>ev. evs' = evs @ ev \<and> cache_keys ev = [link it] \<and> length (attempted ev) \<le> 2"
proof (cases "c (link it)")
  case (Some v)
  with assms have "evs' = evs @ [CacheTryGet (link it)]"
    by (simp add: fetchItem_def tryGet_def)
  then show ?thesis by (simp add: attempted_CacheTryGet)
next
  case None
  obtain ev p where p: "ln_producer cookie usePuppeteer w it = (ev, p)"
    by (cases "ln_producer cookie usePuppeteer w it")
  from ln_producer_no_keys [of cookie usePuppeteer w it] p have k: "cache_keys ev = []" by simp
  from ln_producer_two_attempts [of cookie usePuppeteer w it] p have a: "length (attempted ev) \<le> 2" by simp
  from assms None p have "evs' = evs @ CacheTryGet (link it) # ev"
    by (cases p) (simp_all add: fetchItem_def tryGet_def)
  with k a show ?thesis by (simp add: attempted_CacheTryGet)
qed

lemma runSerial_events:
  "runSerial (fetchItem cookie usePuppeteer w) xs out (evs, c) = (Inr res, (evs', c')) \<Longrightarrow>
   \<exists>E. evs' = evs @ E \<and> cache_keys E = map link xs \<and> length (attempted E) \<le> 2 * length xs"
proof (induction xs arbitrary: out evs c)
  case Nil
  then show ?case by simp
next
  case (Cons x xs)
  obtain r evs1 c1 where w: "fetchItem cookie usePuppeteer w (evs, c) x = (r, (evs1, c1))"
    by (metis surj_pair)
  from fetchItem_events [OF w] obtain ev where
    ev: "evs1 = evs @ ev" "cache_keys ev = [link x]" "length (attempted ev) \<le> 2" by blast
  show ?case
  proof (cases r)
    case (Inl e)
    with Cons.prems w show ?thesis by simp
  next
    case (Inr y)
    with Cons.prems w
    have "runSerial (fetchItem cookie usePuppeteer w) xs (out @ [y]) (evs1, c1) = (Inr res, (evs', c'))"
      by simp
    from Cons.IH [OF this] obtain E where
      E: "evs' = evs1 @ E" "cache_keys E = map link xs" "length (attempted E) \<le> 2 * length xs"
      by blast
    from ev E have "evs' = evs @ (ev @ E) \<and> cache_keys (ev @ E) = map link (x # xs)
        \<and> length (attempted (ev @ E)) \<le> 2 * length (x # xs)"
      by (simp add: cache_keys_append)
    then show ?thesis by blast
  qed
qed

lemma dispatchAll_events:
  "dispatchAll (fetchItem cookie usePuppeteer w) xs (evs, c) = (ps, (evs', c')) \<Longrightarrow>
   \<exists>E. evs' = evs @ E \<and> cache_keys E = map link xs \<and> length (attempted E) \<le> 2 * length xs"
proof (induction xs arbitrary: ps evs c evs' c')
  case Nil
  then show ?case by simp
next
  case (Cons x xs)
  obtain r evs1 c1 where w: "fetchItem cookie usePuppeteer w (evs, c) x = (r, (evs1, c1))"
    by (metis surj_pair)
  from fetchItem_events [OF w] obtain ev where
    ev: "evs1 = evs @ ev" "cache_keys ev = [link x]" "length (attempted ev) \<le> 2" by blast
  obtain rs evs2 c2 where d: "dispatchAll (fetchItem cookie usePuppeteer w) xs (evs1, c1) = (rs, (evs2, c2))"
    by (metis surj_pair)
  from Cons.prems w d have e: "evs' = evs2" by simp
  from Cons.IH [OF d] obtain E where
    E: "evs2 = evs1 @ E" "cache_keys E = map link xs" "length (attempted E) \<le> 2 * length xs"
    by blast
  from ev E e have "evs' = evs @ (ev @ E) \<and> cache_keys (ev @ E) = map link (x # xs)
      \<and> length (attempted (ev @ E)) \<le> 2 * length (x # xs)"
    by (simp add: cache_keys_append)
  then show ?case by blast
qed

lemma runBatch_events:
  assumes "runBatch flag (fetchItem cookie usePuppeteer w) sched xs (evs, c) = (Some (Inr out), (evs', c'))"
  shows "\<exists>E. evs' = evs @ E \<and> cache_keys E = map link xs \<and> length (attempted E) \<le> 2 * length xs"
proof (cases flag)
  case True
  with assms have "runSerial (fetchItem cookie usePuppeteer w) xs [] (evs, c) = (Inr out, (evs', c'))"
    by (simp add: runBatch_def split: prod.splits)
  then show ?thesis by (rule runSerial_events)
next
  case False
  obtain ps s1 where d: "dispatchAll (fetchItem cookie usePuppeteer w) xs (evs, c) = (ps, s1)"
    by (cases "dispatchAll (fetchItem cookie usePuppeteer w) xs (evs, c)")
  with assms False have "s1 = (evs', c')" by (simp add: runBatch_def promiseAll_def)
  with d show ?thesis using dispatchAll_events by blast
qed

lemma mp_handler_items:
  assumes "mp_handler parseList req env w = (evs, Inr fd)"
  shows "\<exists>ev listHtml listItems.
           fetchListHtml (inv_cookie req env) (inv_usePuppeteer req env) w = (ev, Inr listHtml)
           \<and> evs = LogInfo (fst (inv_log req env)) # ev
           \<and> parseList listHtml = Inr listItems
           \<and> feed_item fd = slice0 (inv_limit req) listItems"
  using assms
  by (auto simp: mp_handler_def Let_def split: prod.splits sum.splits if_splits)

lemma ln_handler_items:
  assumes "ln_handler mkItem sched req env lw s = (Some (Inr lf), s')"
  shows "\<exists>body entries.
           feed_response lw (inv_cookie req env) = Inr body
           \<and> parseString lw (trimStart body) = Inr entries
           \<and> runBatch (inv_usePuppeteer req env) (fetchItem (inv_cookie req env) (inv_usePuppeteer req env) lw)
                sched (map mkItem (slice0 (inv_limit req) (case entries of None \<Rightarrow> [] | Some xs \<Rightarrow> xs)))
                (fst s @ [LogInfo (fst (inv_log req env))], snd s)
              = (Some (Inr (feed_item lf)), s')"
  using assms
  by (auto simp: ln_handler_def Let_def split: prod.splits sum.splits if_splits option.splits)

text \<open>
  C9, as amended. Without a limit parameter the limit is 20. When the limit is a number
  \<open>L\<close> that is not negative:
  \<^item> a run of investing/most-popular-news that returns a feed has done nothing but write
    the log line and fetch the list page, and the feed holds the first \<open>L\<close> of the
    entries parsed from the page that fetch returned;
  \<^item> a run of investing/latest-news that returns a feed is, after the log line, the
    batch over the entry list cut to its first \<open>L\<close> elements and nothing else: the feed
    holds at most \<open>L\<close> items, each the result of fetching the item at the same position
    of the cut list; the calls of \<^verbatim>\<open>cache.tryGet\<close> in the trace are exactly those for the
    links of the cut list, in its order; and at most \<open>2 * L\<close> tiers are attempted. Nothing
    is fetched for an entry beyond the limit.
\<close>

theorem limit_truncation:
  "(query_limit req = None \<longrightarrow> inv_limit req = Some 20)
   \<and> (inv_limit req = Some L \<and> 0 \<le> L \<and> mp_handler parseList req env w = (evs, Inr fd) \<longrightarrow>
        length (feed_item fd) \<le> nat L
        \<and> (\<exists>ev listHtml listItems.
              fetchListHtml (inv_cookie req env) (inv_usePuppeteer req env) w = (ev, Inr listHtml)
              \<and> evs = LogInfo (fst (inv_log req env)) # ev
              \<and> parseList listHtml = Inr listItems
              \<and> feed_item fd = take (nat L) listItems))
   \<and> (inv_limit req = Some L \<and> 0 \<le> L \<and> ln_handler mkItem sched req env lw s = (Some (Inr lf), s') \<longrightarrow>
        length (feed_item lf) \<le> nat L
        \<and> (\<exists>body entries E.
              feed_response lw (inv_cookie req env) = Inr body
              \<and> parseString lw (trimStart body) = Inr entries
              \<and> runBatch (inv_usePuppeteer req env)
                   (fetchItem (inv_cookie req env) (inv_usePuppeteer req env) lw) sched
                   (map mkItem (take (nat L) (case entries of None \<Rightarrow> [] | Some xs \<Rightarrow> xs)))
                   (fst s @ [LogInfo (fst (inv_log req env))], snd s)
                 = (Some (Inr (feed_item lf)), s')
              \<and> list_all2 (\<lambda>x y. \<exists>t t'. fetchItem (inv_cookie req env) (inv_usePuppeteer req env) lw t x = (Inr y, t'))
                   (map mkItem (take (nat L) (case entries of None \<Rightarrow> [] | Some xs \<Rightarrow> xs)))
                   (feed_item lf)
              \<and> fst s' = fst s @ LogInfo (fst (inv_log req env)) # E
              \<and> cache_keys E = map (\<lambda>e. link (mkItem e)) (take (nat L) (case entries of None \<Rightarrow> [] | Some xs \<Rightarrow> xs))
              \<and> length (attempted E) \<le> 2 * nat L))"
proof (intro conjI impI)
  assume "query_limit req = None"
  then show "inv_limit req = Some 20" by (simp add: inv_limit_def)
next
  assume a: "inv_limit req = Some L \<and> 0 \<le> L \<and> mp_handler parseList req env w = (evs, Inr fd)"
  from mp_handler_items [of parseList req env w evs fd] a
  obtain ev listHtml listItems where
    f: "fetchListHtml (inv_cookie req env) (inv_usePuppeteer req env) w = (ev, Inr listHtml)"
    and e: "evs = LogInfo (fst (inv_log req env)) # ev"
    and p: "parseList listHtml = Inr listItems"
    and t: "feed_item fd = take (nat L) listItems"
    by (auto simp: slice0_nonneg)
  from t show "length (feed_item fd) \<le> nat L" by simp
  from f e p t show "\<exists>ev listHtml listItems.
              fetchListHtml (inv_cookie req env) (inv_usePuppeteer req env) w = (ev, Inr listHtml)
              \<and> evs = LogInfo (fst (inv_log req env)) # ev
              \<and> parseList listHtml = Inr listItems
              \<and> feed_item fd = take (nat L) listItems"
    by blast
next
  assume a: "inv_limit req = Some L \<and> 0 \<le> L \<and> ln_handler mkItem sched req env lw s = (Some (Inr lf), s')"
  let ?W = "fetchItem (inv_cookie req env) (inv_usePuppeteer req env) lw"
  from ln_handler_items [of mkItem sched req env lw s lf s'] a
  obtain body entries where b: "feed_response lw (inv_cookie req env) = Inr body"
    and p: "parseString lw (trimStart body) = Inr entries"
    and r: "runBatch (inv_usePuppeteer req env) ?W
                sched (map mkItem (take (nat L) (case entries of None \<Rightarrow> [] | Some xs \<Rightarrow> xs)))
                (fst s @ [LogInfo (fst (inv_log req env))], snd s)
              = (Some (Inr (feed_item lf)), s')"
    by (auto simp: slice0_nonneg)
  let ?xs = "map mkItem (take (nat L) (case entries of None \<Rightarrow> [] | Some xs \<Rightarrow> xs))"
  from runBatch_order [OF r]
  have o: "list_all2 (\<lambda>x y. \<exists>t t'. ?W t x = (Inr y, t')) ?xs (feed_item lf)" .
  from list_all2_lengthD [OF o] show "length (feed_item lf) \<le> nat L" by simp
  obtain evs' c' where s': "s' = (evs', c')" by (cases s')
  from runBatch_events [OF r [unfolded s']] obtain E where
    E: "evs' = (fst s @ [LogInfo (fst (inv_log req env))]) @ E" "cache_keys E = map link ?xs"
       "length (attempted E) \<le> 2 * length ?xs" by blast
  from E(1) s' have t: "fst s' = fst s @ LogInfo (fst (inv_log req env)) # E" by simp
  from E(2) have k: "cache_keys E = map (\<lambda>e. link (mkItem e)) (take (nat L) (case entries of None \<Rightarrow> [] | Some xs \<Rightarrow> xs))"
    by (simp add: comp_def)
  from E(3) have n: "length (attempted E) \<le> 2 * nat L" by simp
  from b p r o t k n show "\<exists>body entries E.
              feed_response lw (inv_cookie req env) = Inr body
              \<and> parseString lw (trimStart body) = Inr entries
              \<and> runBatch (inv_usePuppeteer req env)
                   (fetchItem (inv_cookie req env) (inv_usePuppeteer req env) lw) sched
                   (map mkItem (take (nat L) (case entries of None \<Rightarrow> [] | Some xs \<Rightarrow> xs)))
                   (fst s @ [LogInfo (fst (inv_log req env))], snd s)
                 = (Some (Inr (feed_item lf)), s')
              \<and> list_all2 (\<lambda>x y. \<exists>t t'. fetchItem (inv_cookie req env) (inv_usePuppeteer req env) lw t x = (Inr y, t'))
                   (map mkItem (take (nat L) (case entries of None \<Rightarrow> [] | Some xs \<Rightarrow> xs)))
                   (feed_item lf)
              \<and> fst s' = fst s @ LogInfo (fst (inv_log req env)) # E
              \<and> cache_keys E = map (\<lambda>e. link (mkItem e)) (take (nat L) (case entries of None \<Rightarrow> [] | Some xs \<Rightarrow> xs))
              \<and> length (attempted E) \<le> 2 * nat L"
    by blast
qed

theorem limit_truncation_witness:
  "inv_limit req_abc = Some 20
   \<and> inv_limit req_two = Some 2
   \<and> mp_handler three_items req_two env_none w_plain =
        ([LogInfo no_log, TierAttempt Direct],
         Inr \<lparr> feed_link = ''https://cn.investing.com/news/most-popular-news'', feed_item = [''a'', ''b''] \<rparr>)
   \<and> length [''a'', ''b''] \<le> nat 2
   \<and> ln_handler mk_item [1, 0] req_two env_none ln_plain ([], no_cached_item) =
        (Some (Inr \<lparr> feed_link = ''https://cn.investing.com/news/latest-news'',
                     feed_item = [mk_item ''a'', mk_item ''b''] \<rparr>),
         snd (ln_handler mk_item [1, 0] req_two env_none ln_plain ([], no_cached_item)))
   \<and> fst (snd (ln_handler mk_item [1, 0] req_two env_none ln_plain ([], no_cached_item))) =
        [LogInfo no_log, CacheTryGet ''a'', CacheTryGet ''b'']
   \<and> length [mk_item ''a'', mk_item ''b''] \<le> nat 2"
proof -
  have a: "query_limit req_abc = None" by (simp add: req_abc_def)
  have l: "inv_limit req_two = Some 2" by code_simp
  have m: "mp_handler three_items req_two env_none w_plain =
        ([LogInfo no_log, TierAttempt Direct],
         Inr \<lparr> feed_link = ''https://cn.investing.com/news/most-popular-news'', feed_item = [''a'', ''b''] \<rparr>)"
    by code_simp
  have n: "fst (ln_handler mk_item [1, 0] req_two env_none ln_plain ([], no_cached_item)) =
        Some (Inr \<lparr> feed_link = ''https://cn.investing.com/news/latest-news'',
                    feed_item = [mk_item ''a'', mk_item ''b''] \<rparr>)"
    by code_simp
  then have n': "ln_handler mk_item [1, 0] req_two env_none ln_plain ([], no_cached_item) =
        (Some (Inr \<lparr> feed_link = ''https://cn.investing.com/news/latest-news'',
                     feed_item = [mk_item ''a'', mk_item ''b''] \<rparr>),
         snd (ln_handler mk_item [1, 0] req_two env_none ln_plain ([], no_cached_item)))"
    by (metis prod.collapse)
  have t: "fst (snd (ln_handler mk_item [1, 0] req_two env_none ln_plain ([], no_cached_item))) =
        [LogInfo no_log, CacheTryGet ''a'', CacheTryGet ''b'']"
    by code_simp
  show ?thesis
    using limit_truncation [where req = req_abc and L = 2 and parseList = three_items and env = env_none
        and w = w_plain and mkItem = mk_item and sched = "[1, 0]" and lw = ln_plain
        and s = "([], no_cached_item)"
        and evs = "[LogInfo no_log, TierAttempt Direct]"
        and fd = "\<lparr> feed_link = ''https://cn.investing.com/news/most-popular-news'', feed_item = [''a'', ''b''] \<rparr>"
        and lf = "\<lparr> feed_link = ''https://cn.investing.com/news/latest-news'',
                    feed_item = [mk_item ''a'', mk_item ''b''] \<rparr>"
        and s' = "snd (ln_handler mk_item [1, 0] req_two env_none ln_plain ([], no_cached_item))"]
      limit_truncation [where req = req_two and L = 2 and parseList = three_items and env = env_none
        and w = w_plain and mkItem = mk_item and sched = "[1, 0]" and lw = ln_plain
        and s = "([], no_cached_item)"
        and evs = "[LogInfo no_log, TierAttempt Direct]"
        and fd = "\<lparr> feed_link = ''https://cn.investing.com/news/most-popular-news'', feed_item = [''a'', ''b''] \<rparr>"
        and lf = "\<lparr> feed_link = ''https://cn.investing.com/news/latest-news'',
                    feed_item = [mk_item ''a'', mk_item ''b''] \<rparr>"
        and s' = "snd (ln_handler mk_item [1, 0] req_two env_none ln_plain ([], no_cached_item))"]
      a l m n' t by simp
qed

text \<open>
  The claim as written fails for a negative limit: \<^verbatim>\<open>slice(0, -1)\<close> drops the last entry,
  so with the limit \<open>-1\<close> and three entries the feed holds two items.
\<close>

theorem limit_truncation_counterexample:
  "inv_limit req_negative = Some (- 1)
   \<and> snd (mp_handler three_items req_negative env_none w_plain) =
        Inr \<lparr> feed_link = ''https://cn.investing.com/news/most-popular-news'', feed_item = [''a'', ''b''] \<rparr>"
  by code_simp

subsection \<open>Single flight\<close>

lemma count_list_append: "count_list (xs @ ys) k = count_list xs k + count_list ys k"
  by (induction xs) simp_all

lemma pending_kept:
  assumes "entries s key = Some (Pending waiters)" and "list_all (\<lambda>st. \<not> resolves key st) steps"
  shows "entries (getOrCompute_run s steps) key = Some (Pending (waiters @ callers_of key steps))
         \<and> count_list (invoked (getOrCompute_run s steps)) key = count_list (invoked s) key
         \<and> filter (\<lambda>r. fst (snd r) = key) (returned (getOrCompute_run s steps))
             = filter (\<lambda>r. fst (snd r) = key) (returned s)"
  using assms
proof (induction steps arbitrary: s waiters)
  case Nil
  then show ?case by (simp add: getOrCompute_run_def)
next
  case (Cons st steps)
  have run: "getOrCompute_run s (st # steps) = getOrCompute_run (getOrCompute_step s st) steps"
    by (simp add: getOrCompute_run_def)
  from Cons.prems(2) have rest: "list_all (\<lambda>st. \<not> resolves key st) steps" and nr: "\<not> resolves key st"
    by simp_all
  show ?case
  proof (cases st)
    case (Call caller k now)
    show ?thesis
    proof (cases "k = key")
      case True
      with Call Cons.prems(1)
      have e: "entries (getOrCompute_step s st) key = Some (Pending (waiters @ [caller]))"
        and i: "invoked (getOrCompute_step s st) = invoked s"
        and r: "returned (getOrCompute_step s st) = returned s"
        by simp_all
      from Cons.IH [OF e rest] Call True i r show ?thesis
        unfolding run by simp
    next
      case False
      with Call Cons.prems(1)
      have e: "entries (getOrCompute_step s st) key = Some (Pending waiters)"
        by (simp split: option.splits cache_entry.splits)
      from Call False
      have i: "count_list (invoked (getOrCompute_step s st)) key = count_list (invoked s) key"
        by (simp add: count_list_append split: option.splits cache_entry.splits)
      from Call False
      have r: "filter (\<lambda>r. fst (snd r) = key) (returned (getOrCompute_step s st))
                = filter (\<lambda>r. fst (snd r) = key) (returned s)"
        by (simp split: option.splits cache_entry.splits)
      from Cons.IH [OF e rest] Call False i r show ?thesis
        unfolding run by simp
    qed
  next
    case (Resolve k outcome now ttl)
    with nr have ne: "k \<noteq> key" by simp
    with Resolve Cons.prems(1)
    have e: "entries (getOrCompute_step s st) key = Some (Pending waiters)"
      by (simp split: option.splits cache_entry.splits sum.splits)
    from Resolve
    have i: "invoked (getOrCompute_step s st) = invoked s"
      by (simp split: option.splits cache_entry.splits)
    from Resolve ne
    have r: "filter (\<lambda>r. fst (snd r) = key) (returned (getOrCompute_step s st))
              = filter (\<lambda>r. fst (snd r) = key) (returned s)"
      by (simp split: option.splits cache_entry.splits)
    from Cons.IH [OF e rest] Resolve i r show ?thesis
      unfolding run by simp
  qed
qed

text \<open>
  C3, for the cache as the spec describes it. When a call for a key finds no entry, and
  no step before the completion of its producer completes that producer, then however
  many later calls for the key (and steps for other keys) come in between, the producer
  of the key has been invoked exactly once more than before, the entry is pending with
  the first caller and the later callers as waiters, none of them has received anything
  yet, and the completion hands the same outcome to each of them, in the order of their
  calls.
\<close>

theorem single_flight:
  assumes "entries s key = None" and "list_all (\<lambda>st. \<not> resolves key st) steps"
  shows "count_list (invoked (getOrCompute_run s (Call caller key now # steps))) key
           = count_list (invoked s) key + 1
         \<and> entries (getOrCompute_run s (Call caller key now # steps)) key
             = Some (Pending (caller # callers_of key steps))
         \<and> filter (\<lambda>r. fst (snd r) = key) (returned (getOrCompute_run s (Call caller key now # steps)))
             = filter (\<lambda>r. fst (snd r) = key) (returned s)
         \<and> count_list (invoked (getOrCompute_run s (Call caller key now # steps @ [Resolve key outcome done ttl]))) key
             = count_list (invoked s) key + 1
         \<and> returned (getOrCompute_run s (Call caller key now # steps @ [Resolve key outcome done ttl]))
             = returned (getOrCompute_run s (Call caller key now # steps))
               @ map (\<lambda>c. (c, key, outcome)) (caller # callers_of key steps)"
proof -
  let ?s1 = "getOrCompute_step s (Call caller key now)"
  have e: "entries ?s1 key = Some (Pending [caller])" using assms(1) by simp
  have i: "count_list (invoked ?s1) key = count_list (invoked s) key + 1"
    using assms(1) by (simp add: count_list_append)
  have r: "returned ?s1 = returned s" using assms(1) by simp
  have run: "getOrCompute_run s (Call caller key now # steps) = getOrCompute_run ?s1 steps"
    by (simp add: getOrCompute_run_def)
  have fin: "getOrCompute_run s (Call caller key now # steps @ [Resolve key outcome done ttl])
      = getOrCompute_step (getOrCompute_run ?s1 steps) (Resolve key outcome done ttl)"
    by (simp add: getOrCompute_run_def)
  from pending_kept [OF e assms(2)] i r show ?thesis
    unfolding run fin by simp
qed

theorem single_flight_witness:
  "entries fresh_cache ''k'' = None
   \<and> list_all (\<lambda>st. \<not> resolves ''k'' st) late_steps
   \<and> count_list (invoked (getOrCompute_run fresh_cache
        (Call 1 ''k'' 0 # late_steps @ [Resolve ''k'' (Inr 42) 5 10]))) ''k'' = 1
   \<and> returned (getOrCompute_run fresh_cache
        (Call 1 ''k'' 0 # late_steps @ [Resolve ''k'' (Inr 42) 5 10]))
        = [(1, ''k'', Inr 42), (2, ''k'', Inr 42), (3, ''k'', Inr 42)]"
proof -
  have e: "entries fresh_cache ''k'' = None"
    by (simp add: fresh_cache_def)
  have l: "list_all (\<lambda>st. \<not> resolves ''k'' st) late_steps"
    by (simp add: late_steps_def)
  have c: "callers_of ''k'' late_steps = [2, 3]"
    by (simp add: late_steps_def)
  have r: "returned (getOrCompute_run fresh_cache (Call 1 ''k'' 0 # late_steps)) = []"
    by (simp add: getOrCompute_run_def fresh_cache_def late_steps_def)
  show ?thesis
    using single_flight [OF e l, of 1 0 "Inr 42" 5 10] e l c r
    by (simp add: fresh_cache_def)
qed

end
